theory Spec2Isabelle
  imports Complex_Main "HOL-Library.Multiset"
begin

section \<open>JavaScript built-ins used by the sources\<close>

subsection \<open>\<^verbatim>\<open>parseInt(s, 10)\<close>\<close>

text \<open>
  \<^verbatim>\<open>parseInt\<close> with radix ten skips leading white space, reads an optional sign and
  then the longest run of decimal digits; with no digit the result is \<open>NaN\<close>, here
  \<open>None\<close>. What follows the digits is ignored. A character is a code unit below 256,
  so white space is tab, line feed, vertical tab, form feed, carriage return, space
  and the no-break space, code 160.
\<close>

definition isWhiteSpace :: "char \<Rightarrow> bool" where
  "isWhiteSpace c = (of_char c \<in> {9, 10, 11, 12, 13, 32, 160 :: nat})"

definition isDigit :: "char \<Rightarrow> bool" where
  "isDigit c = (48 \<le> (of_char c :: nat) \<and> (of_char c :: nat) \<le> 57)"

definition digitsValue :: "string \<Rightarrow> nat" where
  "digitsValue ds = foldl (\<lambda>acc c. 10 * acc + (of_char c - 48)) 0 ds"

definition parseInt10 :: "string \<Rightarrow> int option" where
  "parseInt10 s =
     (let S = dropWhile isWhiteSpace s;
          negative = (case S of [] \<Rightarrow> False | c # cs \<Rightarrow> c = CHR ''-'');
          S1 = (case S of [] \<Rightarrow> [] | c # cs \<Rightarrow> if c = CHR ''-'' \<or> c = CHR ''+'' then cs else S);
          Z = takeWhile isDigit S1
      in if Z = [] then None
         else Some (if negative then - int (digitsValue Z) else int (digitsValue Z)))"

text \<open>
  The values \<^verbatim>\<open>parseInt\<close> is applied to: \<^verbatim>\<open>undefined\<close>, an integer-valued number
  or a string. A number is first converted to its decimal string, which is how
  JavaScript prints an integer below \<open>10\<^sup>2\<^sup>1\<close> in absolute value.
\<close>

datatype js_prim = Undefined | Num int | Str string

fun decimal :: "nat \<Rightarrow> string" where
  "decimal n = (if n < 10 then [] else decimal (n div 10)) @ [char_of (48 + n mod 10)]"

declare decimal.simps [simp del]

fun toString :: "js_prim \<Rightarrow> string" where
  "toString Undefined = ''undefined''"
| "toString (Num i) = (if i < 0 then CHR ''-'' # decimal (nat (- i)) else decimal (nat i))"
| "toString (Str s) = s"

definition parseInt :: "js_prim \<Rightarrow> int option" where
  "parseInt v = parseInt10 (toString v)"

text \<open>Comparison of numbers that may be \<open>NaN\<close>: every comparison with \<open>NaN\<close> is false.\<close>

fun numEq :: "int option \<Rightarrow> int option \<Rightarrow> bool" where
  "numEq (Some x) (Some y) = (x = y)"
| "numEq x y = False"

fun numGe :: "int option \<Rightarrow> int option \<Rightarrow> bool" where
  "numGe (Some x) (Some y) = (x \<ge> y)"
| "numGe x y = False"

subsection \<open>\<^verbatim>\<open>Array.prototype.sort\<close>\<close>

text \<open>
  The built-in sort is modelled by insertion sort driven by the sign of the comparator,
  as engines run it on short arrays: each element in turn is moved left past every
  element of the sorted prefix that the comparator puts after it,
  \<^verbatim>\<open>comparefn(tmp, element) > 0\<close>, and stops at the first one it does not. The prefix
  is kept nearest element first.
\<close>

fun shiftInsert :: "('a \<Rightarrow> 'a \<Rightarrow> int) \<Rightarrow> 'a \<Rightarrow> 'a list \<Rightarrow> 'a list" where
  "shiftInsert comparefn element [] = [element]"
| "shiftInsert comparefn element (tmp # rest) =
     (if comparefn tmp element > 0 then tmp # shiftInsert comparefn element rest
      else element # tmp # rest)"

definition arraySort :: "('a \<Rightarrow> 'a \<Rightarrow> int) \<Rightarrow> 'a list \<Rightarrow> 'a list" where
  "arraySort comparefn xs = rev (foldl (\<lambda>prefix x. shiftInsert comparefn x prefix) [] xs)"

section \<open>Messages provider: \<^verbatim>\<open>src/addon/messages/providers/messages.ts\<close>\<close>

subsection \<open>Data and collaborators\<close>

text \<open>
  Promises are modelled by the value they settle with: \<open>Inl e\<close> is a rejection with
  \<open>e\<close>, \<open>Inr v\<close> a resolution with \<open>v\<close>. Every operation that touches the device or
  the server takes the world and returns the new one. Rejection values are strings.
\<close>

record site =
  wsCache :: "string \<rightharpoonup> string"
  cacheFails :: bool

record offline_entry =
  entrySiteId :: string
  touserid :: int
  smallmessage :: string

record ws_write =
  writeSiteId :: string
  wsfunction :: string
  wsMessages :: "(int \<times> string \<times> int) list"

record msg_response =
  msgid :: int
  errormessage :: string

record world =
  isOnline :: bool
  currentSiteId :: string
  sites :: "string \<rightharpoonup> site"
  offlineMessages :: "offline_entry list"
  offlineReadFails :: bool
  offlineWriteFails :: bool
  wsWrites :: "ws_write list"
  writeReply :: "ws_write \<Rightarrow> string + msg_response list option"
  isWebServiceError :: "string \<Rightarrow> bool"

record send_error =
  error :: string
  wserror :: bool

record send_result =
  sent :: bool
  message :: "offline_entry option"

text \<open>\<^verbatim>\<open>siteId || current\<close>: an undefined or empty site id falls back to the current one.\<close>

definition orDefault :: "string option \<Rightarrow> string \<Rightarrow> string" where
  "orDefault s d = (case s of None \<Rightarrow> d | Some x \<Rightarrow> if x = [] then d else x)"

text \<open>
  Modelled from the spec: \<^verbatim>\<open>sitesProvider.getSite\<close> is not among the sources. A site
  is looked up by its identifier in per-site storage, the current site standing in for
  a missing identifier; the promise rejects when there is no such site. The result
  pairs the site with its identifier, which is what \<^verbatim>\<open>site.getId()\<close> returns.
\<close>

definition getSite :: "world \<Rightarrow> string option \<Rightarrow> string + (string \<times> site)" where
  "getSite w s =
     (let sid = orDefault s (currentSiteId w)
      in case sites w sid of None \<Rightarrow> Inl ''sitenotfound'' | Some st \<Rightarrow> Inr (sid, st))"

definition getId :: "string \<times> site \<Rightarrow> string" where
  "getId h = fst h"

text \<open>
  Modelled from the spec: \<^verbatim>\<open>site.invalidateWsCacheForKey\<close> is not among the sources.
  Invalidation clears the entry stored under exactly that key; on an already clear key
  it changes nothing; a failing store rejects and leaves the cache as it was.
\<close>

definition invalidateWsCacheForKey ::
    "world \<Rightarrow> string \<times> site \<Rightarrow> string \<Rightarrow> (string + unit) \<times> world" where
  "invalidateWsCacheForKey w h key =
     (if cacheFails (snd h) then (Inl ''StorageError'', w)
      else (Inr (),
            w\<lparr>sites := (sites w)(fst h \<mapsto> (snd h)\<lparr>wsCache := (wsCache (snd h))(key := None)\<rparr>)\<rparr>))"

text \<open>
  Modelled from the spec: \<^verbatim>\<open>site.write\<close> is not among the sources. A write is a
  live call to the server: it is recorded in \<open>wsWrites\<close> and settles with whatever the
  server and the network answer, \<open>writeReply\<close>.
\<close>

definition siteWrite ::
    "world \<Rightarrow> string \<times> site \<Rightarrow> string \<Rightarrow> (int \<times> string \<times> int) list
      \<Rightarrow> (string + msg_response list option) \<times> world" where
  "siteWrite w h fn msgs =
     (let c = \<lparr>writeSiteId = fst h, wsfunction = fn, wsMessages = msgs\<rparr>
      in (writeReply w c, w\<lparr>wsWrites := wsWrites w @ [c]\<rparr>))"

text \<open>
  Modelled from the spec: the offline store \<^verbatim>\<open>messagesOffline\<close> is not among the
  sources. \<open>saveMessage\<close> appends a pending entry keyed by site and recipient and
  resolves with it; \<open>hasMessages\<close> reports whether such entries exist. Either rejects
  when the store cannot be written, respectively read.
\<close>

definition hasMessages :: "world \<Rightarrow> int \<Rightarrow> string \<Rightarrow> string + bool" where
  "hasMessages w toUserId siteId =
     (if offlineReadFails w then Inl ''StorageError''
      else Inr (\<exists>e \<in> set (offlineMessages w). entrySiteId e = siteId \<and> touserid e = toUserId))"

definition saveMessage ::
    "world \<Rightarrow> int \<Rightarrow> string \<Rightarrow> string \<Rightarrow> (string + offline_entry) \<times> world" where
  "saveMessage w toUserId msg siteId =
     (if offlineWriteFails w then (Inl ''StorageError'', w)
      else (let entry = \<lparr>entrySiteId = siteId, touserid = toUserId, smallmessage = msg\<rparr>
            in (Inr entry, w\<lparr>offlineMessages := offlineMessages w @ [entry]\<rparr>)))"

subsection \<open>Cache keys and invalidation\<close>

definition ROOT_CACHE_KEY :: string where
  "ROOT_CACHE_KEY = ''mmaMessages:''"

definition getCacheKeyForContacts :: string where
  "getCacheKeyForContacts = ROOT_CACHE_KEY @ ''contacts''"

definition getCacheKeyForDiscussion :: "int \<Rightarrow> string" where
  "getCacheKeyForDiscussion userId = ROOT_CACHE_KEY @ ''discussion:'' @ toString (Num userId)"

definition getCacheKeyForDiscussions :: string where
  "getCacheKeyForDiscussions = ROOT_CACHE_KEY @ ''discussions''"

definition invalidateContactsCache :: "world \<Rightarrow> string option \<Rightarrow> (string + unit) \<times> world" where
  "invalidateContactsCache w siteId =
     (case getSite w siteId of
        Inl e \<Rightarrow> (Inl e, w)
      | Inr h \<Rightarrow> invalidateWsCacheForKey w h getCacheKeyForContacts)"

definition invalidateDiscussionCache ::
    "world \<Rightarrow> int \<Rightarrow> string option \<Rightarrow> (string + unit) \<times> world" where
  "invalidateDiscussionCache w userId siteId =
     (case getSite w siteId of
        Inl e \<Rightarrow> (Inl e, w)
      | Inr h \<Rightarrow> invalidateWsCacheForKey w h (getCacheKeyForDiscussion userId))"

definition invalidateDiscussionsCache :: "world \<Rightarrow> string option \<Rightarrow> (string + unit) \<times> world" where
  "invalidateDiscussionsCache w siteId =
     (case getSite w siteId of
        Inl e \<Rightarrow> (Inl e, w)
      | Inr h \<Rightarrow>
          (case invalidateWsCacheForKey w h getCacheKeyForDiscussions of
             (Inl e, w1) \<Rightarrow> (Inl e, w1)
           | (Inr u, w1) \<Rightarrow> invalidateContactsCache w1 (Some (getId h))))"

text \<open>
  Modelled from the spec: reading a key from the cache (the cache half of
  \<^verbatim>\<open>site.read\<close>, not among the sources) returns the payload stored under it, if any;
  with none, the read has to go to the server.
\<close>

definition cachedValue :: "world \<Rightarrow> string \<Rightarrow> string \<Rightarrow> string option" where
  "cachedValue w sid key = (case sites w sid of None \<Rightarrow> None | Some st \<Rightarrow> wsCache st key)"

subsection \<open>Sending a message\<close>

definition sendMessagesOnline ::
    "world \<Rightarrow> (int \<times> string \<times> int) list \<Rightarrow> string option
      \<Rightarrow> (string + msg_response list option) \<times> world" where
  "sendMessagesOnline w msgs siteId =
     (case getSite w siteId of
        Inl e \<Rightarrow> (Inl e, w)
      | Inr h \<Rightarrow> siteWrite w h ''core_message_send_instant_messages'' msgs)"

text \<open>
  \<^verbatim>\<open>response && response[0] && response[0].msgid === -1\<close>: a null response and an
  empty array are falsy at the first, respectively second, conjunct.
\<close>

definition firstRejected :: "msg_response list option \<Rightarrow> msg_response option" where
  "firstRejected response =
     (case response of
        None \<Rightarrow> None
      | Some [] \<Rightarrow> None
      | Some (r # rs) \<Rightarrow> if msgid r = - 1 then Some r else None)"

definition sendMessageOnline ::
    "world \<Rightarrow> int \<Rightarrow> string \<Rightarrow> string option \<Rightarrow> (send_error + unit) \<times> world" where
  "sendMessageOnline w toUserId msg siteIdOpt =
     (let siteId = orDefault siteIdOpt (currentSiteId w);
          messages = [(toUserId, msg, 1)]
      in case sendMessagesOnline w messages (Some siteId) of
           (Inl e, w1) \<Rightarrow> (Inl \<lparr>error = e, wserror = isWebServiceError w e\<rparr>, w1)
         | (Inr response, w1) \<Rightarrow>
             (case firstRejected response of
                Some r \<Rightarrow> (Inl \<lparr>error = errormessage r, wserror = True\<rparr>, w1)
              | None \<Rightarrow> (Inr (), snd (invalidateDiscussionCache w1 toUserId (Some siteId)))))"

definition storeOffline ::
    "world \<Rightarrow> int \<Rightarrow> string \<Rightarrow> string \<Rightarrow> (string + send_result) \<times> world" where
  "storeOffline w toUserId msg siteId =
     (case saveMessage w toUserId msg siteId of
        (Inl e, w1) \<Rightarrow> (Inl e, w1)
      | (Inr entry, w1) \<Rightarrow> (Inr \<lparr>sent = False, message = Some entry\<rparr>, w1))"

definition sendMessage ::
    "world \<Rightarrow> int \<Rightarrow> string \<Rightarrow> string option \<Rightarrow> (string + send_result) \<times> world" where
  "sendMessage w toUserId msg siteIdOpt =
     (let siteId = orDefault siteIdOpt (currentSiteId w)
      in if \<not> isOnline w then storeOffline w toUserId msg siteId
         else
           (let hasStoredMessages =
                  (case hasMessages w toUserId siteId of Inl e \<Rightarrow> True | Inr b \<Rightarrow> b)
            in if hasStoredMessages then storeOffline w toUserId msg siteId
               else
                 (case sendMessageOnline w toUserId msg None of
                    (Inr u, w1) \<Rightarrow> (Inr \<lparr>sent = True, message = None\<rparr>, w1)
                  | (Inl data, w1) \<Rightarrow>
                      if wserror data then (Inl (error data), w1)
                      else storeOffline w1 toUserId msg siteId)))"

subsection \<open>Sorting messages\<close>

text \<open>
  A message as \<open>sortMessages\<close> reads it: whether it is pending, its creation time and
  its identifier, which is a number or, for a message not yet sent, undefined. Any
  further fields ride along in the record extension.
\<close>

record message_data =
  pending :: bool
  timecreated :: js_prim
  id' :: "int option"

text \<open>\<^verbatim>\<open>a.id\<close> as a condition, and \<^verbatim>\<open>a.id >= b.id\<close>, where undefined compares as \<open>NaN\<close>.\<close>

definition truthyId :: "int option \<Rightarrow> bool" where
  "truthyId i = (case i of None \<Rightarrow> False | Some n \<Rightarrow> n \<noteq> 0)"

definition compareMessages :: "'a message_data_scheme \<Rightarrow> 'a message_data_scheme \<Rightarrow> int" where
  "compareMessages a b =
     (if pending a \<and> \<not> pending b then 1
      else if \<not> pending a \<and> pending b then - 1
      else
        (let timecreatedA = parseInt (timecreated a);
             timecreatedB = parseInt (timecreated b)
         in if numEq timecreatedA timecreatedB \<and> truthyId (id' a)
            then (if numGe (id' a) (id' b) then 1 else - 1)
            else (if numGe timecreatedA timecreatedB then 1 else - 1)))"

definition sortMessages :: "'a message_data_scheme list \<Rightarrow> 'a message_data_scheme list" where
  "sortMessages messages = arraySort compareMessages messages"

definition exampleMessages :: "message_data list" where
  "exampleMessages =
     [\<lparr>pending = True, timecreated = Num 1, id' = None\<rparr>,
      \<lparr>pending = False, timecreated = Num 7, id' = Some 3\<rparr>,
      \<lparr>pending = False, timecreated = Num 7, id' = Some 2\<rparr>,
      \<lparr>pending = False, timecreated = Str ''5'', id' = Some 9\<rparr>]"

subsection \<open>Example worlds\<close>

definition exampleWorld :: world where
  "exampleWorld =
     \<lparr>isOnline = True, currentSiteId = ''s1'',
      sites = [''s1'' \<mapsto> \<lparr>wsCache = [''mmaMessages:discussions'' \<mapsto> ''d0'',
                                        ''mmaMessages:contacts'' \<mapsto> ''c0'',
                                        ''mmaMessages:discussion:5'' \<mapsto> ''m0''],
                             cacheFails = False\<rparr>],
      offlineMessages = [], offlineReadFails = False, offlineWriteFails = False,
      wsWrites = [],
      writeReply = (\<lambda>c. Inr (Some [\<lparr>msgid = 7, errormessage = []\<rparr>])),
      isWebServiceError = (\<lambda>e. e = ''invalidparameter'')\<rparr>"

definition pendingWorld :: world where
  "pendingWorld =
     exampleWorld\<lparr>offlineMessages :=
       [\<lparr>entrySiteId = ''s1'', touserid = 5, smallmessage = ''A''\<rparr>]\<rparr>"

definition rejectingWorld :: world where
  "rejectingWorld =
     exampleWorld\<lparr>writeReply := (\<lambda>c. Inr (Some [\<lparr>msgid = - 1, errormessage = ''blocked''\<rparr>]))\<rparr>"

definition unreachableWorld :: world where
  "unreachableWorld = exampleWorld\<lparr>writeReply := (\<lambda>c. Inl ''timeout'')\<rparr>"

text \<open>
  A second site \<open>s2\<close> is stored next to the current site \<open>s1\<close>, and the conversation with
  user 5 has a pending message on \<open>s1\<close> and none on \<open>s2\<close>.
\<close>

definition twoSiteWorld :: world where
  "twoSiteWorld =
     pendingWorld\<lparr>sites := (sites pendingWorld)(''s2'' \<mapsto> \<lparr>wsCache = Map.empty, cacheFails = False\<rparr>)\<rparr>"

section \<open>Web service provider: \<^verbatim>\<open>CoreWSProvider\<close>\<close>

subsection \<open>Values, presets and errors\<close>

text \<open>
  A response body is a JavaScript value. Numbers are the reals with \<open>NaN\<close> and the two
  infinities; the claims depend only on whether a number is \<open>NaN\<close> or zero. An object
  is the list of its properties, keys distinct.
\<close>

datatype js_number = NaN | Infinite bool | Finite real

datatype js_value =
    JUndefined
  | JNull
  | JBool bool
  | JNumber js_number
  | JString string
  | JObject "(string \<times> js_value) list"
  | JArray "js_value list"

fun typeOf :: "js_value \<Rightarrow> string" where
  "typeOf JUndefined = ''undefined''"
| "typeOf JNull = ''object''"
| "typeOf (JBool b) = ''boolean''"
| "typeOf (JNumber n) = ''number''"
| "typeOf (JString s) = ''string''"
| "typeOf (JObject kvs) = ''object''"
| "typeOf (JArray vs) = ''object''"

fun isNaN :: "js_number \<Rightarrow> bool" where
  "isNaN NaN = True"
| "isNaN n = False"

fun truthy :: "js_value \<Rightarrow> bool" where
  "truthy JUndefined = False"
| "truthy JNull = False"
| "truthy (JBool b) = b"
| "truthy (JNumber NaN) = False"
| "truthy (JNumber (Infinite s)) = True"
| "truthy (JNumber (Finite r)) = (r \<noteq> 0)"
| "truthy (JString s) = (s \<noteq> [])"
| "truthy (JObject kvs) = True"
| "truthy (JArray vs) = True"

text \<open>\<^verbatim>\<open>data.key\<close> on a value that is neither null nor undefined.\<close>

fun getProp :: "js_value \<Rightarrow> string \<Rightarrow> js_value" where
  "getProp (JObject kvs) k = (case map_of kvs k of None \<Rightarrow> JUndefined | Some v \<Rightarrow> v)"
| "getProp v k = JUndefined"

text \<open>\<^verbatim>\<open>obj[key] = value\<close> on the property list.\<close>

fun setProp :: "(string \<times> js_value) list \<Rightarrow> string \<Rightarrow> js_value \<Rightarrow> (string \<times> js_value) list" where
  "setProp [] k v = [(k, v)]"
| "setProp ((k', v') # kvs) k v = (if k' = k then (k, v) # kvs else (k', v') # setProp kvs k v)"

text \<open>
  The conversions of the language that the provider calls and that are no part of the
  sources are parameters: \<^verbatim>\<open>Number(s)\<close> on a string and the string a value
  concatenates as.
\<close>

record js_builtins =
  Number :: "string \<Rightarrow> js_number"
  ToString :: "js_value \<Rightarrow> string"

record preSets =
  siteUrl :: string
  wsToken :: string
  responseExpected :: "bool option"
  typeExpected :: "string option"
  cleanUnicode :: "bool option"

datatype ws_error =
    CoreError string
  | CoreWSError js_value
  | CoreAjaxError string "int option"
  | CoreAjaxWSError js_value
  | TypeError

text \<open>
  What the HTTP layer rejects with: an error response, with its status and its
  \<^verbatim>\<open>Retry-After\<close> header if any, or the timeout of the request, which has no status.
\<close>

datatype http_error = HttpErrorResponse int "string option" | TimeoutError

subsection \<open>The response handler of \<open>performPost\<close>\<close>

definition performPostThen ::
    "js_builtins \<Rightarrow> string \<Rightarrow> preSets \<Rightarrow> js_value \<Rightarrow> ws_error + js_value" where
  "performPostThen js method preSets response =
     (let data = (if \<not> truthy response \<and> responseExpected preSets \<noteq> Some True
                  then JObject [] else response)
      in if \<not> truthy data then Inl (CoreError ''core.serverconnection'')
         else
           (case
              (if Some (typeOf data) \<noteq> typeExpected preSets then
                 (case data of
                    JString s \<Rightarrow>
                      if typeExpected preSets = Some ''number'' then
                        (if isNaN (Number js s) then Inl (CoreError ''core.errorinvalidresponse'')
                         else Inr (JNumber (Number js s)))
                      else if typeExpected preSets = Some ''boolean'' then
                        (if s = ''true'' then Inr (JBool True)
                         else if s = ''false'' then Inr (JBool False)
                         else Inl (CoreError ''core.errorinvalidresponse''))
                      else Inl (CoreError ''core.errorinvalidresponse'')
                  | _ \<Rightarrow> Inl (CoreError ''core.errorinvalidresponse''))
               else Inr data)
            of
              Inl e \<Rightarrow> Inl e
            | Inr d \<Rightarrow>
                if getProp d ''exception'' \<noteq> JUndefined then Inl (CoreWSError d)
                else if getProp d ''debuginfo'' \<noteq> JUndefined
                  then Inl (CoreError (''Error. '' @ ToString js (getProp d ''message'')))
                else Inr d))"

subsection \<open>State of the provider and of its environment\<close>

record retry_call =
  rcMethod :: string
  rcSiteUrl :: string
  rcData :: "(string \<times> js_value) list"
  rcPreSets :: preSets
  rcDeferred :: nat

text \<open>
  An HTTP POST that was issued: what was sent, when, the promise \<open>performPost\<close>
  returned for it, and the arguments its handlers close over.
\<close>

record http_post =
  postUrl :: string
  postData :: "(string \<times> js_value) list"
  postResponseType :: "string option"
  postTimeout :: nat
  postedAt :: nat
  postPromise :: nat
  postMethod :: string
  postSiteUrl :: string
  postPreSets :: preSets

text \<open>
  A request sent through \<open>sendHTTPRequest\<close>, with the promise that \<open>performAjax\<close>
  chains on it.
\<close>

record http_request =
  reqUrl :: string
  reqMethod :: string
  reqData :: "js_value option"
  reqSerializer :: "string option"
  reqTimeout :: nat
  reqPromise :: nat

datatype timer_callback = RetryTimeoutExpired | ReplayCall retry_call | DeleteOngoing string

record timer =
  fireAt :: nat
  callback :: timer_callback

text \<open>
  A promise is pending, settled, or resolved with another promise whose fate it then
  follows.
\<close>

datatype promise_state = Pending | Resolved js_value | Rejected ws_error | Follows nat

text \<open>
  The provider's fields are \<open>ongoingCalls\<close>, \<open>retryCalls\<close> and \<open>retryTimeout\<close>. The
  rest is its environment: connectivity, the platform, the two request timeouts
  (constants that are no part of the sources), the POSTs of \<open>performPost\<close> and the
  requests of \<open>sendHTTPRequest\<close> issued so far, the callbacks waiting in
  \<^verbatim>\<open>setTimeout\<close>, the clock in milliseconds, the promises created, each under a
  fresh number, and the \<^verbatim>\<open>finally\<close> handlers registered on them: the key to
  delete from \<open>ongoingCalls\<close> and the timer to clear.
\<close>

record ws_provider =
  ongoingCalls :: "string \<rightharpoonup> nat"
  retryCalls :: "retry_call list"
  retryTimeout :: int
  appOnline :: bool
  isIOS :: bool
  networkAccessLimited :: bool
  WS_TIMEOUT :: nat
  WS_TIMEOUT_WIFI :: nat
  posts :: "http_post list"
  requests :: "http_request list"
  timers :: "timer list"
  now :: nat
  promises :: "nat \<rightharpoonup> promise_state"
  finallyHandlers :: "nat \<rightharpoonup> string \<times> timer"
  nextId :: nat

definition getRequestTimeout :: "ws_provider \<Rightarrow> nat" where
  "getRequestTimeout st = (if networkAccessLimited st then WS_TIMEOUT st else WS_TIMEOUT_WIFI st)"

text \<open>
  \<^verbatim>\<open>setTimeout(callback, delay)\<close>. The timer keeps the delay, in milliseconds, as a
  signed 32-bit integer: a negative delay and a delay above \<open>2\<^sup>3\<^sup>1 - 1 = 2147483647\<close>
  both count as none, and the callback is due at once.
\<close>

definition timerDelay :: "int \<Rightarrow> nat" where
  "timerDelay delay = (if delay < 0 \<or> 2147483647 < delay then 0 else nat delay)"

definition setTimeout :: "ws_provider \<Rightarrow> timer_callback \<Rightarrow> int \<Rightarrow> ws_provider" where
  "setTimeout st cb delay =
     st\<lparr>timers := timers st @ [\<lparr>fireAt = now st + timerDelay delay, callback = cb\<rparr>]\<rparr>"

definition newPromise :: "ws_provider \<Rightarrow> nat \<times> ws_provider" where
  "newPromise st =
     (nextId st, st\<lparr>promises := (promises st)(nextId st \<mapsto> Pending), nextId := Suc (nextId st)\<rparr>)"

subsection \<open>Calls, the retry queue and its timers\<close>

definition addToRetryQueue ::
    "ws_provider \<Rightarrow> string \<Rightarrow> string \<Rightarrow> (string \<times> js_value) list \<Rightarrow> preSets
      \<Rightarrow> nat \<times> ws_provider" where
  "addToRetryQueue st method siteUrl' data preSets =
     (case newPromise st of
        (d, st1) \<Rightarrow>
          (d, st1\<lparr>retryCalls := retryCalls st1 @
                   [\<lparr>rcMethod = method, rcSiteUrl = siteUrl', rcData = data,
                     rcPreSets = preSets, rcDeferred = d\<rparr>]\<rparr>))"

definition performPost ::
    "ws_provider \<Rightarrow> string \<Rightarrow> string \<Rightarrow> (string \<times> js_value) list \<Rightarrow> preSets
      \<Rightarrow> nat \<times> ws_provider" where
  "performPost st method siteUrl' ajaxData preSets =
     (let responseType =
            (if typeExpected preSets = Some ''number'' \<or> typeExpected preSets = Some ''boolean''
                \<or> typeExpected preSets = Some ''string''
             then Some ''text'' else None);
          requestUrl = siteUrl' @ ''&wsfunction='' @ method
      in case newPromise st of
           (p, st1) \<Rightarrow>
             (p, st1\<lparr>posts := posts st1 @
                      [\<lparr>postUrl = requestUrl, postData = ajaxData,
                        postResponseType = responseType, postTimeout = getRequestTimeout st,
                        postedAt = now st, postPromise = p, postMethod = method,
                        postSiteUrl = siteUrl', postPreSets = preSets\<rparr>]\<rparr>))"

text \<open>\<^verbatim>\<open>parseInt(error.headers.get('Retry-After'), 10) || 5\<close>; a missing header is null.\<close>

definition retryAfter :: "string option \<Rightarrow> int" where
  "retryAfter header =
     (case parseInt10 (case header of None \<Rightarrow> ''null'' | Some s \<Rightarrow> s) of
        None \<Rightarrow> 5
      | Some n \<Rightarrow> if n = 0 then 5 else n)"

text \<open>The rejection handler of \<open>performPost\<close>: what the returned promise becomes.\<close>

definition performPostCatch ::
    "ws_provider \<Rightarrow> http_post \<Rightarrow> http_error \<Rightarrow> promise_state \<times> ws_provider" where
  "performPostCatch st post err =
     (case err of
        HttpErrorResponse status header \<Rightarrow>
          if status = 429 then
            (case addToRetryQueue st (postMethod post) (postSiteUrl post) (postData post)
                    (postPreSets post) of
               (retryPromise, st1) \<Rightarrow>
                 (Follows retryPromise,
                  if retryTimeout st1 = 0
                  then setTimeout (st1\<lparr>retryTimeout := retryAfter header\<rparr>) RetryTimeoutExpired
                         (retryAfter header * 1000)
                  else st1))
          else (Rejected (CoreError ''core.serverconnection''), st)
      | TimeoutError \<Rightarrow> (Rejected (CoreError ''core.serverconnection''), st))"

text \<open>
  The HTTP layer settles a POST, with a body or with an error: the matching handler
  runs and the promise of the POST takes the state the handler gives it.
\<close>

definition postSettles ::
    "js_builtins \<Rightarrow> ws_provider \<Rightarrow> http_post \<Rightarrow> http_error + js_value \<Rightarrow> ws_provider" where
  "postSettles js st post outcome =
     (case outcome of
        Inr body \<Rightarrow>
          (case performPostThen js (postMethod post) (postPreSets post) body of
             Inl e \<Rightarrow> st\<lparr>promises := (promises st)(postPromise post \<mapsto> Rejected e)\<rparr>
           | Inr v \<Rightarrow> st\<lparr>promises := (promises st)(postPromise post \<mapsto> Resolved v)\<rparr>)
      | Inl err \<Rightarrow>
          (case performPostCatch st post err of
             (s, st1) \<Rightarrow> st1\<lparr>promises := (promises st1)(postPromise post \<mapsto> s)\<rparr>))"





text \<open>\<^verbatim>\<open>preSets.typeExpected || 'object'\<close> and the default of \<^verbatim>\<open>responseExpected\<close>.\<close>

definition withDefaults :: "preSets \<Rightarrow> preSets" where
  "withDefaults preSets =
     preSets\<lparr>typeExpected :=
               (case typeExpected preSets of
                  None \<Rightarrow> Some ''object''
                | Some t \<Rightarrow> if t = [] then Some ''object'' else Some t),
             responseExpected :=
               (case responseExpected preSets of None \<Rightarrow> Some True | Some b \<Rightarrow> Some b)\<rparr>"

text \<open>
  \<open>call\<close> throws before returning a promise when it has no presets or the device is
  offline; otherwise it returns the promise of the queue or of the POST.
\<close>

definition call ::
    "ws_provider \<Rightarrow> string \<Rightarrow> (string \<times> js_value) list \<Rightarrow> preSets option
      \<Rightarrow> (ws_error + nat) \<times> ws_provider" where
  "call st method data preSetsOpt =
     (case preSetsOpt of
        None \<Rightarrow> (Inl (CoreError ''core.unexpectederror''), st)
      | Some preSets0 \<Rightarrow>
          if \<not> appOnline st then (Inl (CoreError ''core.networkerrormsg''), st)
          else
            (let preSets = withDefaults preSets0;
                 dataToSend =
                   setProp (setProp data ''wsfunction'' (JString method))
                     ''wstoken'' (JString (wsToken preSets));
                 siteUrl' = siteUrl preSets @ ''/webservice/rest/server.php?moodlewsrestformat=json''
             in if length (retryCalls st) > 0
                then (case addToRetryQueue st method siteUrl' dataToSend preSets of
                        (p, st1) \<Rightarrow> (Inr p, st1))
                else (case performPost st method siteUrl' dataToSend preSets of
                        (p, st1) \<Rightarrow> (Inr p, st1))))"

subsection \<open>Runs of the provider\<close>






text \<open>
  What a queued call, a POST and an arriving call ask for: the method, the URL of the
  site's endpoint, the data and the presets. \<open>callRequest\<close> is what \<open>call\<close> hands to
  \<open>addToRetryQueue\<close> or to \<open>performPost\<close>; \<open>arrivals\<close> lists it for the calls of a run.
\<close>

type_synonym request = "string \<times> string \<times> (string \<times> js_value) list \<times> preSets"





subsection \<open>AJAX calls and the promises of ongoing requests\<close>

text \<open>
  Functions the AJAX path calls and that are no part of the sources:
  \<^verbatim>\<open>CoreInterceptor.serialize\<close>, \<^verbatim>\<open>Md5.hashAsciiStr\<close>,
  \<^verbatim>\<open>CoreTextUtils.stripUnicode\<close>, \<^verbatim>\<open>encodeURIComponent\<close> and
  \<^verbatim>\<open>JSON.stringify\<close>.
\<close>

record ajax_env =
  serialize :: "js_value \<Rightarrow> string"
  hashAsciiStr :: "string \<Rightarrow> string"
  stripUnicode :: "string \<Rightarrow> string"
  encodeURIComponent :: "string \<Rightarrow> string"
  stringify :: "js_value \<Rightarrow> string"

record ajaxPreSets =
  ajaxSiteUrl :: "string option"
  ajaxResponseExpected :: "bool option"
  noLogin :: "bool option"
  useGet :: "bool option"

text \<open>
  \<open>convertValuesToString\<close> on one value of an object or array: the value is left out,
  or the whole conversion returns null, or the value is kept, converted. \<open>special\<close>
  says that the key is one of the two settings whose booleans are spelled out.
\<close>

datatype converted = Skip | ReturnNull | Keep js_value

fun convertValue :: "js_builtins \<Rightarrow> ajax_env \<Rightarrow> bool \<Rightarrow> bool \<Rightarrow> js_value \<Rightarrow> converted"
and convertProperties ::
    "js_builtins \<Rightarrow> ajax_env \<Rightarrow> bool \<Rightarrow> (string \<times> js_value) list
      \<Rightarrow> (string \<times> js_value) list option"
and convertElements ::
    "js_builtins \<Rightarrow> ajax_env \<Rightarrow> bool \<Rightarrow> js_value list \<Rightarrow> js_value list option" where
  "convertValue js env strip special JUndefined = Skip"
| "convertValue js env strip special JNull = Skip"
| "convertValue js env strip special (JObject kvs) =
     (case convertProperties js env strip kvs of
        None \<Rightarrow> ReturnNull
      | Some r \<Rightarrow> Keep (JObject r))"
| "convertValue js env strip special (JArray vs) =
     (case convertElements js env strip vs of
        None \<Rightarrow> ReturnNull
      | Some r \<Rightarrow> Keep (JArray r))"
| "convertValue js env strip special (JString s) =
     (if strip
      then (if stripUnicode env s \<noteq> s \<and> list_all isWhiteSpace (stripUnicode env s)
            then ReturnNull else Keep (JString (stripUnicode env s)))
      else Keep (JString s))"
| "convertValue js env strip special (JBool b) =
     (if special then Keep (JString (if b then ''true'' else ''false''))
      else Keep (JString (if b then ''1'' else ''0'')))"
| "convertValue js env strip special (JNumber n) = Keep (JString (ToString js (JNumber n)))"
| "convertProperties js env strip [] = Some []"
| "convertProperties js env strip ((key, v) # rest) =
     (case convertValue js env strip
             (key = ''moodlewssettingfilter'' \<or> key = ''moodlewssettingfileurl'') v of
        ReturnNull \<Rightarrow> None
      | Skip \<Rightarrow> convertProperties js env strip rest
      | Keep v' \<Rightarrow>
          (case convertProperties js env strip rest of
             None \<Rightarrow> None
           | Some r \<Rightarrow> Some ((key, v') # r)))"
| "convertElements js env strip [] = Some []"
| "convertElements js env strip (v # rest) =
     (case convertValue js env strip False v of
        ReturnNull \<Rightarrow> None
      | Skip \<Rightarrow> convertElements js env strip rest
      | Keep v' \<Rightarrow>
          (case convertElements js env strip rest of
             None \<Rightarrow> None
           | Some r \<Rightarrow> Some (v' # r)))"

text \<open>The conversion of the arguments of a call, an object; \<open>None\<close> is null.\<close>

definition convertValuesToString ::
    "js_builtins \<Rightarrow> ajax_env \<Rightarrow> (string \<times> js_value) list \<Rightarrow> bool \<Rightarrow> js_value option" where
  "convertValuesToString js env data strip =
     (case convertProperties js env strip data of None \<Rightarrow> None | Some r \<Rightarrow> Some (JObject r))"

definition getQueueItemId :: "ajax_env \<Rightarrow> string \<Rightarrow> string \<Rightarrow> js_value option \<Rightarrow> string" where
  "getQueueItemId env method url params =
     method @ ''#'' @
       hashAsciiStr env
         (case params of None \<Rightarrow> url | Some p \<Rightarrow> url @ ''###'' @ serialize env p)"

definition getPromiseHttp ::
    "ws_provider \<Rightarrow> ajax_env \<Rightarrow> string \<Rightarrow> string \<Rightarrow> js_value option \<Rightarrow> nat option" where
  "getPromiseHttp st env method url params = ongoingCalls st (getQueueItemId env method url params)"

text \<open>
  \<open>setPromiseHttp\<close> stores the promise under the key of the request, sets the timer
  that deletes it after the request timeout, and returns \<^verbatim>\<open>promise.finally(...)\<close>: a
  new promise that follows the stored one, whose handler, registered on the stored
  promise, deletes the key and clears the timer.
\<close>

definition setPromiseHttp ::
    "ws_provider \<Rightarrow> ajax_env \<Rightarrow> nat \<Rightarrow> string \<Rightarrow> string \<Rightarrow> js_value option
      \<Rightarrow> nat \<times> ws_provider" where
  "setPromiseHttp st env promise method url params =
     (let queueItemId = getQueueItemId env method url params;
          st1 = st\<lparr>ongoingCalls := (ongoingCalls st)(queueItemId \<mapsto> promise)\<rparr>;
          timeout = \<lparr>fireAt = now st1 + timerDelay (int (getRequestTimeout st1)),
                     callback = DeleteOngoing queueItemId\<rparr>;
          st2 = st1\<lparr>timers := timers st1 @ [timeout]\<rparr>
      in case newPromise st2 of
           (q, st3) \<Rightarrow>
             (q, st3\<lparr>promises := (promises st3)(q \<mapsto> Follows promise),
                     finallyHandlers := (finallyHandlers st3)(promise \<mapsto> (queueItemId, timeout))\<rparr>))"

text \<open>
  \<open>sendHTTPRequest\<close> for the methods \<open>performAjax\<close> uses. On iOS a \<^verbatim>\<open>file://\<close> URL
  is read from the device and no request is sent; everything else is a request.
  The promise returned is the one \<open>performAjax\<close> chains its handlers on.
\<close>

definition sendHTTPRequest ::
    "ws_provider \<Rightarrow> string \<Rightarrow> string \<Rightarrow> js_value option \<Rightarrow> string option
      \<Rightarrow> nat \<times> ws_provider" where
  "sendHTTPRequest st url method data serializer =
     (case newPromise st of
        (p, st1) \<Rightarrow>
          if isIOS st \<and> take 7 url = ''file://'' then (p, st1)
          else
            (p, st1\<lparr>requests := requests st1 @
                     [\<lparr>reqUrl = url, reqMethod = method, reqData = data,
                       reqSerializer = serializer, reqTimeout = getRequestTimeout st,
                       reqPromise = p\<rparr>]\<rparr>))"

definition truthyOption :: "bool option \<Rightarrow> bool" where
  "truthyOption b = (b = Some True)"

text \<open>
  \<open>performAjax\<close> throws before sending anything when there is no site URL or the device
  is offline. It converts the arguments without stripping, so the conversion does not
  return null; the case is written out as the null value all the same.
\<close>

definition performAjax ::
    "ws_provider \<Rightarrow> js_builtins \<Rightarrow> ajax_env \<Rightarrow> string \<Rightarrow> (string \<times> js_value) list
      \<Rightarrow> ajaxPreSets \<Rightarrow> (ws_error + nat) \<times> ws_provider" where
  "performAjax st js env method data preSets =
     (case ajaxSiteUrl preSets of
        None \<Rightarrow> (Inl (CoreAjaxError ''core.unexpectederror'' None), st)
      | Some url \<Rightarrow>
          if \<not> appOnline st then (Inl (CoreAjaxError ''core.networkerrormsg'' None), st)
          else
            (let script = (if truthyOption (noLogin preSets) then ''service-nologin.php''
                           else ''service.php'');
                 ajaxData =
                   JArray [JObject [(''index'', JNumber (Finite 0)),
                                    (''methodname'', JString method),
                                    (''args'', (case convertValuesToString js env data False of
                                                  None \<Rightarrow> JNull | Some a \<Rightarrow> a))]];
                 siteUrl' = url @ ''/lib/ajax/'' @ script @ ''?info='' @ method
             in if truthyOption (noLogin preSets) \<and> truthyOption (useGet preSets)
                then (case sendHTTPRequest st
                             (siteUrl' @ ''&args='' @ encodeURIComponent env (stringify env ajaxData))
                             ''get'' None None of
                        (p, st1) \<Rightarrow> (Inr p, st1))
                else (case sendHTTPRequest st siteUrl' ''post'' (Some ajaxData) (Some ''json'') of
                        (p, st1) \<Rightarrow> (Inr p, st1))))"

text \<open>\<^verbatim>\<open>data[0]\<close> on an array or an object.\<close>

fun firstElement :: "js_value \<Rightarrow> js_value" where
  "firstElement (JArray (v # vs)) = v"
| "firstElement (JObject kvs) = getProp (JObject kvs) ''0''"
| "firstElement v = JUndefined"

text \<open>The two handlers \<open>performAjax\<close> chains on the request.\<close>

definition performAjaxThen :: "ajaxPreSets \<Rightarrow> js_value \<Rightarrow> ws_error + js_value" where
  "performAjaxThen preSets body =
     (let data = (if \<not> truthy body \<and> ajaxResponseExpected preSets = Some False
                  then JArray [JObject []] else body)
      in if \<not> truthy data \<or> typeOf data \<noteq> ''object''
         then Inl (CoreAjaxError ''core.serverconnection'' None)
         else if truthy (getProp data ''error'') then Inl (CoreAjaxWSError data)
         else
           (case firstElement data of
              JUndefined \<Rightarrow> Inl TypeError
            | JNull \<Rightarrow> Inl TypeError
            | first \<Rightarrow>
                if truthy (getProp first ''error'')
                then Inl (CoreAjaxWSError (getProp first ''exception''))
                else Inr (getProp first ''data'')))"

definition performAjaxCatch :: "http_error \<Rightarrow> ws_error" where
  "performAjaxCatch err =
     CoreAjaxError ''core.serverconnection''
       (Some (case err of
                HttpErrorResponse status header \<Rightarrow> if status = 404 then - 1 else 0
              | TimeoutError \<Rightarrow> 0))"

text \<open>
  A request settles: the handler of \<open>performAjax\<close> settles its promise, and the
  \<^verbatim>\<open>finally\<close> handler registered on that promise, if any, deletes the key from
  \<open>ongoingCalls\<close> and clears the timer.
\<close>

definition requestSettles ::
    "ws_provider \<Rightarrow> ajaxPreSets \<Rightarrow> http_request \<Rightarrow> http_error + js_value \<Rightarrow> ws_provider" where
  "requestSettles st preSets request outcome =
     (let settled =
            (case outcome of
               Inl err \<Rightarrow> Rejected (performAjaxCatch err)
             | Inr body \<Rightarrow>
                 (case performAjaxThen preSets body of Inl e \<Rightarrow> Rejected e | Inr v \<Rightarrow> Resolved v));
          st1 = st\<lparr>promises := (promises st)(reqPromise request \<mapsto> settled)\<rparr>
      in case finallyHandlers st1 (reqPromise request) of
           None \<Rightarrow> st1
         | Some (queueItemId, timeout) \<Rightarrow>
             st1\<lparr>ongoingCalls := (ongoingCalls st1)(queueItemId := None),
                 timers := remove1 timeout (timers st1)\<rparr>)"

text \<open>The promise a caller holds settles as the promise at the end of what it follows.\<close>

fun settlesAs :: "nat \<Rightarrow> (nat \<rightharpoonup> promise_state) \<Rightarrow> nat \<Rightarrow> promise_state" where
  "settlesAs 0 ps p = Pending"
| "settlesAs (Suc fuel) ps p =
     (case ps p of
        None \<Rightarrow> Pending
      | Some (Follows q) \<Rightarrow> settlesAs fuel ps q
      | Some s \<Rightarrow> s)"

definition callAjax ::
    "ws_provider \<Rightarrow> js_builtins \<Rightarrow> ajax_env \<Rightarrow> string \<Rightarrow> (string \<times> js_value) list
      \<Rightarrow> ajaxPreSets \<Rightarrow> (ws_error + nat) \<times> ws_provider" where
  "callAjax st js env method data preSets =
     (let cacheParams = JObject [(''methodname'', JString method), (''args'', JObject data)];
          url = (case ajaxSiteUrl preSets of None \<Rightarrow> ''undefined'' | Some u \<Rightarrow> u)
      in case getPromiseHttp st env ''ajax'' url (Some cacheParams) of
           Some promise \<Rightarrow> (Inr promise, st)
         | None \<Rightarrow>
             (case performAjax st js env method data preSets of
                (Inl e, st1) \<Rightarrow> (Inl e, st1)
              | (Inr promise, st1) \<Rightarrow>
                  (case setPromiseHttp st1 env promise ''ajax'' url (Some cacheParams) of
                     (q, st2) \<Rightarrow> (Inr q, st2))))"

text \<open>The key under which \<open>callAjax\<close> looks its call up and stores it.\<close>

definition ajaxKey :: "ajax_env \<Rightarrow> string \<Rightarrow> (string \<times> js_value) list \<Rightarrow> ajaxPreSets \<Rightarrow> string" where
  "ajaxKey env method data preSets =
     getQueueItemId env ''ajax''
       (case ajaxSiteUrl preSets of None \<Rightarrow> ''undefined'' | Some u \<Rightarrow> u)
       (Some (JObject [(''methodname'', JString method), (''args'', JObject data)]))"

subsection \<open>Example presets and provider states\<close>

definition exampleBuiltins :: js_builtins where
  "exampleBuiltins = \<lparr>Number = (\<lambda>s. if s = ''12'' then Finite 12 else if s = [] then Finite 0 else NaN),
                       ToString = (\<lambda>v. case v of JString s \<Rightarrow> s | _ \<Rightarrow> ''undefined'')\<rparr>"

definition numberPreSets :: preSets where
  "numberPreSets = \<lparr>siteUrl = ''https://site'', wsToken = ''tok'', responseExpected = Some True,
                     typeExpected = Some ''number'', cleanUnicode = None\<rparr>"

definition idleProvider :: ws_provider where
  "idleProvider =
     \<lparr>ongoingCalls = Map.empty, retryCalls = [], retryTimeout = 0, appOnline = True,
      isIOS = False, networkAccessLimited = False, WS_TIMEOUT = 30000,
      WS_TIMEOUT_WIFI = 30000, posts = [], requests = [], timers = [], now = 0,
      promises = Map.empty, finallyHandlers = Map.empty, nextId = 0\<rparr>"

definition objectPreSets :: preSets where
  "objectPreSets = \<lparr>siteUrl = ''https://site'', wsToken = ''tok'', responseExpected = None,
                     typeExpected = None, cleanUnicode = None\<rparr>"

text \<open>
  The POST of a first call \<open>A\<close>, and the provider after that POST came back 429 with
  \<^verbatim>\<open>Retry-After: 3\<close> and calls \<open>B\<close> and \<open>C\<close> arrived.
\<close>

definition firstPost :: http_post where
  "firstPost = hd (posts (snd (call idleProvider ''A'' [] (Some objectPreSets))))"






definition exampleAjaxEnv :: ajax_env where
  "exampleAjaxEnv =
     \<lparr>serialize = (\<lambda>v. case v of JObject kvs \<Rightarrow> concat (map fst kvs) | _ \<Rightarrow> []),
      hashAsciiStr = (\<lambda>s. s), stripUnicode = (\<lambda>s. s), encodeURIComponent = (\<lambda>s. s),
      stringify = (\<lambda>v. ''[]'')\<rparr>"

definition exampleAjaxPreSets :: ajaxPreSets where
  "exampleAjaxPreSets =
     \<lparr>ajaxSiteUrl = Some ''https://site'', ajaxResponseExpected = None, noLogin = None,
      useGet = None\<rparr>"

section \<open>Properties of the messages provider\<close>

lemma orDefault_idem: "orDefault (Some (orDefault s d)) d = orDefault s d"
  by (simp add: orDefault_def split: option.splits)

lemma storeOffline_wsWrites: "wsWrites (snd (storeOffline w u m sid)) = wsWrites w"
  by (simp add: storeOffline_def saveMessage_def Let_def)

lemma storeOffline_accepted:
  "\<not> offlineWriteFails w \<Longrightarrow>
     storeOffline w u m sid =
       (Inr \<lparr>sent = False,
             message = Some \<lparr>entrySiteId = sid, touserid = u, smallmessage = m\<rparr>\<rparr>,
        w\<lparr>offlineMessages :=
            offlineMessages w @ [\<lparr>entrySiteId = sid, touserid = u, smallmessage = m\<rparr>]\<rparr>)"
  by (simp add: storeOffline_def saveMessage_def Let_def)

lemma invalidateWsCacheForKey_offline:
  "offlineMessages (snd (invalidateWsCacheForKey w h k)) = offlineMessages w \<and>
   offlineWriteFails (snd (invalidateWsCacheForKey w h k)) = offlineWriteFails w \<and>
   wsWrites (snd (invalidateWsCacheForKey w h k)) = wsWrites w"
  by (simp add: invalidateWsCacheForKey_def)

lemma invalidateDiscussionCache_offline:
  "offlineMessages (snd (invalidateDiscussionCache w u s)) = offlineMessages w \<and>
   offlineWriteFails (snd (invalidateDiscussionCache w u s)) = offlineWriteFails w \<and>
   wsWrites (snd (invalidateDiscussionCache w u s)) = wsWrites w"
  by (simp add: invalidateDiscussionCache_def invalidateWsCacheForKey_offline split: sum.splits)

lemma sendMessagesOnline_offline:
  "offlineMessages (snd (sendMessagesOnline w ms s)) = offlineMessages w \<and>
   offlineWriteFails (snd (sendMessagesOnline w ms s)) = offlineWriteFails w"
  by (simp add: sendMessagesOnline_def siteWrite_def Let_def split: sum.splits)

lemma sendMessageOnline_offline:
  "offlineMessages (snd (sendMessageOnline w u m s)) = offlineMessages w \<and>
   offlineWriteFails (snd (sendMessageOnline w u m s)) = offlineWriteFails w"
proof -
  let ?r = "sendMessagesOnline w [(u, m, 1)] (Some (orDefault s (currentSiteId w)))"
  have a: "offlineMessages (snd ?r) = offlineMessages w \<and> offlineWriteFails (snd ?r) = offlineWriteFails w"
    by (rule sendMessagesOnline_offline)
  show ?thesis
    using a
    by (cases ?r) (auto simp: sendMessageOnline_def Let_def invalidateDiscussionCache_offline
        split: sum.splits option.splits)
qed

text \<open>
  When the conversation on the site that the call names has pending offline messages
  (\<open>hasMessages\<close> resolves with true for that site), \<open>sendMessage\<close> takes the offline
  path and does nothing else: no live write is issued, online or not, and once the
  offline store accepts the write the message is the newest entry of the queue and the
  call resolves with \<open>sent = False\<close>. Conversely, a live write is issued only when the
  device is online and the conversation on the named site has no pending message.
\<close>

theorem sendMessage_pending_queued:
  "(let siteId = orDefault siteIdOpt (currentSiteId w);
        r = sendMessage w toUserId msg siteIdOpt;
        entry = \<lparr>entrySiteId = siteId, touserid = toUserId, smallmessage = msg\<rparr>
    in (hasMessages w toUserId siteId = Inr True \<longrightarrow>
          r = storeOffline w toUserId msg siteId \<and>
          wsWrites (snd r) = wsWrites w \<and>
          (\<not> offlineWriteFails w \<longrightarrow>
             fst r = Inr \<lparr>sent = False, message = Some entry\<rparr> \<and>
             offlineMessages (snd r) = offlineMessages w @ [entry])) \<and>
       (wsWrites (snd r) \<noteq> wsWrites w \<longrightarrow>
          isOnline w \<and> hasMessages w toUserId siteId = Inr False))"
proof -
  let ?sid = "orDefault siteIdOpt (currentSiteId w)"
  let ?r = "sendMessage w toUserId msg siteIdOpt"
  have queued: "?r = storeOffline w toUserId msg ?sid"
    if "hasMessages w toUserId ?sid = Inr True"
    using that by (simp add: sendMessage_def Let_def)
  have live: "isOnline w \<and> hasMessages w toUserId ?sid = Inr False"
    if ne: "wsWrites (snd ?r) \<noteq> wsWrites w"
  proof (rule ccontr)
    assume "\<not> (isOnline w \<and> hasMessages w toUserId ?sid = Inr False)"
    then have "?r = storeOffline w toUserId msg ?sid"
      by (cases "hasMessages w toUserId ?sid") (auto simp: sendMessage_def Let_def)
    with ne show False by (simp add: storeOffline_wsWrites)
  qed
  show ?thesis
    unfolding Let_def
    using queued live by (auto simp: storeOffline_wsWrites storeOffline_accepted)
qed

theorem sendMessage_pending_queued_witness:
  "hasMessages pendingWorld 5 ''s1'' = Inr True \<and> isOnline pendingWorld \<and>
   fst (sendMessage pendingWorld 5 ''B'' None) =
     Inr \<lparr>sent = False,
          message = Some \<lparr>entrySiteId = ''s1'', touserid = 5, smallmessage = ''B''\<rparr>\<rparr> \<and>
   wsWrites (snd (sendMessage pendingWorld 5 ''B'' None)) = [] \<and>
   wsWrites (snd (sendMessage exampleWorld 5 ''B'' None)) \<noteq> wsWrites exampleWorld \<and>
   hasMessages exampleWorld 5 ''s1'' = Inr False"
proof -
  have p: "hasMessages pendingWorld 5 ''s1'' = Inr True"
    by (simp add: hasMessages_def pendingWorld_def exampleWorld_def)
  have sid: "orDefault None (currentSiteId pendingWorld) = ''s1''"
            "orDefault None (currentSiteId exampleWorld) = ''s1''"
    by (simp_all add: orDefault_def pendingWorld_def exampleWorld_def)
  have fl: "\<not> offlineWriteFails pendingWorld" "wsWrites pendingWorld = []" "isOnline pendingWorld"
    by (simp_all add: pendingWorld_def exampleWorld_def)
  have live: "wsWrites (snd (sendMessage exampleWorld 5 ''B'' None)) \<noteq> wsWrites exampleWorld"
    by (simp add: sendMessage_def sendMessageOnline_def sendMessagesOnline_def getSite_def
        siteWrite_def hasMessages_def orDefault_def exampleWorld_def Let_def firstRejected_def
        invalidateDiscussionCache_def invalidateWsCacheForKey_def)
  note t1 = sendMessage_pending_queued [of None pendingWorld 5 "''B''", unfolded Let_def sid]
  note t2 = sendMessage_pending_queued [of None exampleWorld 5 "''B''", unfolded Let_def sid]
  from t1 p fl have a:
    "fst (sendMessage pendingWorld 5 ''B'' None) =
       Inr \<lparr>sent = False,
            message = Some \<lparr>entrySiteId = ''s1'', touserid = 5, smallmessage = ''B''\<rparr>\<rparr> \<and>
     wsWrites (snd (sendMessage pendingWorld 5 ''B'' None)) = []"
    by metis
  from t2 live have b: "hasMessages exampleWorld 5 ''s1'' = Inr False"
    by blast
  from a b p fl live show ?thesis by blast
qed

lemma hasMessages_False_no_entry:
  "hasMessages w u sid = Inr False \<Longrightarrow>
     \<forall>e \<in> set (offlineMessages w). \<not> (entrySiteId e = sid \<and> touserid e = u)"
  by (auto simp: hasMessages_def split: if_splits)

text \<open>
  Claim C3. When the online send fails with a WebService error (\<open>wserror\<close>),
  \<open>sendMessage\<close> rejects with that error, the offline queue is what it was and holds
  no entry for the conversation; when it fails with any other error, the message goes
  to the offline store.
\<close>

theorem sendMessage_wserror_not_stored:
  assumes online: "isOnline w"
    and none: "hasMessages w toUserId (orDefault siteIdOpt (currentSiteId w)) = Inr False"
    and fails: "sendMessageOnline w toUserId msg None = (Inl d, w1)"
  shows "(wserror d \<longrightarrow>
            sendMessage w toUserId msg siteIdOpt = (Inl (error d), w1) \<and>
            offlineMessages w1 = offlineMessages w \<and>
            (\<forall>e \<in> set (offlineMessages w1).
               \<not> (entrySiteId e = orDefault siteIdOpt (currentSiteId w) \<and> touserid e = toUserId))) \<and>
         (\<not> wserror d \<longrightarrow>
            sendMessage w toUserId msg siteIdOpt =
              storeOffline w1 toUserId msg (orDefault siteIdOpt (currentSiteId w)))"
proof -
  have same: "offlineMessages w1 = offlineMessages w"
    using sendMessageOnline_offline [of w toUserId msg None] fails by simp
  have r: "sendMessage w toUserId msg siteIdOpt =
             (if wserror d then (Inl (error d), w1)
              else storeOffline w1 toUserId msg (orDefault siteIdOpt (currentSiteId w)))"
    using online none fails by (simp add: sendMessage_def Let_def)
  show ?thesis
    using r same hasMessages_False_no_entry [OF none] by simp
qed

lemma rejectingWorld_send:
  "sendMessageOnline rejectingWorld 5 ''B'' None =
     (Inl \<lparr>error = ''blocked'', wserror = True\<rparr>,
      rejectingWorld\<lparr>wsWrites :=
        [\<lparr>writeSiteId = ''s1'', wsfunction = ''core_message_send_instant_messages'',
          wsMessages = [(5, ''B'', 1)]\<rparr>]\<rparr>)"
  by (simp add: sendMessageOnline_def sendMessagesOnline_def getSite_def siteWrite_def
      orDefault_def rejectingWorld_def exampleWorld_def Let_def firstRejected_def)

lemma unreachableWorld_send:
  "sendMessageOnline unreachableWorld 5 ''B'' None =
     (Inl \<lparr>error = ''timeout'', wserror = False\<rparr>,
      unreachableWorld\<lparr>wsWrites :=
        [\<lparr>writeSiteId = ''s1'', wsfunction = ''core_message_send_instant_messages'',
          wsMessages = [(5, ''B'', 1)]\<rparr>]\<rparr>)"
  by (simp add: sendMessageOnline_def sendMessagesOnline_def getSite_def siteWrite_def
      orDefault_def unreachableWorld_def exampleWorld_def Let_def firstRejected_def)

theorem sendMessage_wserror_not_stored_witness:
  "isOnline rejectingWorld \<and>
   hasMessages rejectingWorld 5 ''s1'' = Inr False \<and>
   fst (sendMessage rejectingWorld 5 ''B'' None) = Inl ''blocked'' \<and>
   offlineMessages (snd (sendMessage rejectingWorld 5 ''B'' None)) = [] \<and>
   fst (sendMessage unreachableWorld 5 ''B'' None) =
     Inr \<lparr>sent = False,
          message = Some \<lparr>entrySiteId = ''s1'', touserid = 5, smallmessage = ''B''\<rparr>\<rparr>"
proof -
  have sid: "orDefault None (currentSiteId rejectingWorld) = ''s1''"
            "orDefault None (currentSiteId unreachableWorld) = ''s1''"
    by (simp_all add: orDefault_def rejectingWorld_def unreachableWorld_def exampleWorld_def)
  have on: "isOnline rejectingWorld" "isOnline unreachableWorld"
    by (simp_all add: rejectingWorld_def unreachableWorld_def exampleWorld_def)
  have none: "hasMessages rejectingWorld 5 ''s1'' = Inr False"
             "hasMessages unreachableWorld 5 ''s1'' = Inr False"
    by (simp_all add: hasMessages_def rejectingWorld_def unreachableWorld_def exampleWorld_def)
  have empty: "offlineMessages rejectingWorld = []"
    by (simp add: rejectingWorld_def exampleWorld_def)
  note t1 = sendMessage_wserror_not_stored
              [where w = rejectingWorld and siteIdOpt = None and toUserId = 5 and msg = "''B''",
               unfolded sid, OF on(1) none(1) rejectingWorld_send]
  note t2 = sendMessage_wserror_not_stored
              [where w = unreachableWorld and siteIdOpt = None and toUserId = 5 and msg = "''B''",
               unfolded sid, OF on(2) none(2) unreachableWorld_send]
  have a: "fst (sendMessage rejectingWorld 5 ''B'' None) = Inl ''blocked'' \<and>
           offlineMessages (snd (sendMessage rejectingWorld 5 ''B'' None)) = []"
    using t1 empty by simp
  have b: "fst (sendMessage unreachableWorld 5 ''B'' None) =
     Inr \<lparr>sent = False,
          message = Some \<lparr>entrySiteId = ''s1'', touserid = 5, smallmessage = ''B''\<rparr>\<rparr>"
    using t2 by (simp add: storeOffline_def saveMessage_def unreachableWorld_def exampleWorld_def Let_def)
  from a b on none show ?thesis by simp
qed

text \<open>
  Claim C5. A transient failure is recovered locally: when the device is offline, or
  when it is online, nothing is pending and the online send fails with an error that is
  not a WebService error, the message becomes the newest entry of the offline queue and
  \<open>sendMessage\<close> resolves with \<open>sent = False\<close> and that entry. The offline store is
  taken to accept the write.
\<close>

theorem sendMessage_transient_failure_stored:
  assumes store: "\<not> offlineWriteFails w"
    and cause: "\<not> isOnline w \<or>
                (hasMessages w toUserId (orDefault siteIdOpt (currentSiteId w)) = Inr False \<and>
                 (\<exists>d w1. sendMessageOnline w toUserId msg None = (Inl d, w1) \<and> \<not> wserror d))"
  shows "fst (sendMessage w toUserId msg siteIdOpt) =
           Inr \<lparr>sent = False,
                message = Some \<lparr>entrySiteId = orDefault siteIdOpt (currentSiteId w),
                                touserid = toUserId, smallmessage = msg\<rparr>\<rparr> \<and>
         offlineMessages (snd (sendMessage w toUserId msg siteIdOpt)) =
           offlineMessages w @
             [\<lparr>entrySiteId = orDefault siteIdOpt (currentSiteId w),
               touserid = toUserId, smallmessage = msg\<rparr>]"
proof (cases "isOnline w")
  case False
  then have "sendMessage w toUserId msg siteIdOpt =
               storeOffline w toUserId msg (orDefault siteIdOpt (currentSiteId w))"
    by (simp add: sendMessage_def Let_def)
  then show ?thesis
    using store by (simp add: storeOffline_accepted)
next
  case True
  with cause obtain d w1 where
    none: "hasMessages w toUserId (orDefault siteIdOpt (currentSiteId w)) = Inr False" and
    fails: "sendMessageOnline w toUserId msg None = (Inl d, w1)" and
    transient: "\<not> wserror d"
    by blast
  have w1: "offlineMessages w1 = offlineMessages w" "\<not> offlineWriteFails w1"
    using sendMessageOnline_offline [of w toUserId msg None] fails store by simp_all
  have "sendMessage w toUserId msg siteIdOpt =
          storeOffline w1 toUserId msg (orDefault siteIdOpt (currentSiteId w))"
    using True none fails transient by (simp add: sendMessage_def Let_def)
  then show ?thesis
    using w1 by (simp add: storeOffline_accepted)
qed

theorem sendMessage_transient_failure_stored_witness:
  "\<not> isOnline (exampleWorld\<lparr>isOnline := False\<rparr>) \<and>
   fst (sendMessage (exampleWorld\<lparr>isOnline := False\<rparr>) 5 ''B'' None) =
     Inr \<lparr>sent = False,
          message = Some \<lparr>entrySiteId = ''s1'', touserid = 5, smallmessage = ''B''\<rparr>\<rparr> \<and>
   isOnline unreachableWorld \<and>
   fst (sendMessageOnline unreachableWorld 5 ''B'' None) =
     Inl \<lparr>error = ''timeout'', wserror = False\<rparr> \<and>
   fst (sendMessage unreachableWorld 5 ''B'' None) =
     Inr \<lparr>sent = False,
          message = Some \<lparr>entrySiteId = ''s1'', touserid = 5, smallmessage = ''B''\<rparr>\<rparr> \<and>
   offlineMessages (snd (sendMessage unreachableWorld 5 ''B'' None)) =
     [\<lparr>entrySiteId = ''s1'', touserid = 5, smallmessage = ''B''\<rparr>]"
proof -
  let ?off = "exampleWorld\<lparr>isOnline := False\<rparr>"
  have sid: "orDefault None (currentSiteId ?off) = ''s1''"
            "orDefault None (currentSiteId unreachableWorld) = ''s1''"
    by (simp_all add: orDefault_def unreachableWorld_def exampleWorld_def)
  have st: "\<not> offlineWriteFails ?off" "\<not> offlineWriteFails unreachableWorld"
           "\<not> isOnline ?off" "isOnline unreachableWorld"
           "offlineMessages unreachableWorld = []"
    by (simp_all add: unreachableWorld_def exampleWorld_def)
  have none: "hasMessages unreachableWorld 5 ''s1'' = Inr False"
    by (simp add: hasMessages_def unreachableWorld_def exampleWorld_def)
  have c1: "\<not> isOnline ?off \<or>
            (hasMessages ?off 5 (orDefault None (currentSiteId ?off)) = Inr False \<and>
             (\<exists>d w1. sendMessageOnline ?off 5 ''B'' None = (Inl d, w1) \<and> \<not> wserror d))"
    using st(3) by blast
  have c2: "\<not> isOnline unreachableWorld \<or>
            (hasMessages unreachableWorld 5 (orDefault None (currentSiteId unreachableWorld))
               = Inr False \<and>
             (\<exists>d w1. sendMessageOnline unreachableWorld 5 ''B'' None = (Inl d, w1)
                 \<and> \<not> wserror d))"
    using none unreachableWorld_send by (simp add: sid)
  note t1 = sendMessage_transient_failure_stored [OF st(1) c1, unfolded sid]
  note t2 = sendMessage_transient_failure_stored [OF st(2) c2, unfolded sid]
  show ?thesis
    using t1 t2 st unreachableWorld_send by simp
qed

text \<open>
  Claim C10. When the check for pending messages itself rejects, \<open>sendMessage\<close>
  behaves as if messages were pending: it takes the offline path, issues no live write,
  and resolves with \<open>sent = False\<close> once the offline store accepts the write.
\<close>

theorem sendMessage_unreadable_store_queues:
  assumes online: "isOnline w"
    and unreadable: "hasMessages w toUserId (orDefault siteIdOpt (currentSiteId w)) = Inl e"
  shows "sendMessage w toUserId msg siteIdOpt =
           storeOffline w toUserId msg (orDefault siteIdOpt (currentSiteId w)) \<and>
         wsWrites (snd (sendMessage w toUserId msg siteIdOpt)) = wsWrites w \<and>
         (\<not> offlineWriteFails w \<longrightarrow>
            fst (sendMessage w toUserId msg siteIdOpt) =
              Inr \<lparr>sent = False,
                   message = Some \<lparr>entrySiteId = orDefault siteIdOpt (currentSiteId w),
                                   touserid = toUserId, smallmessage = msg\<rparr>\<rparr> \<and>
            offlineMessages (snd (sendMessage w toUserId msg siteIdOpt)) =
              offlineMessages w @
                [\<lparr>entrySiteId = orDefault siteIdOpt (currentSiteId w),
                  touserid = toUserId, smallmessage = msg\<rparr>])"
proof -
  have r: "sendMessage w toUserId msg siteIdOpt =
             storeOffline w toUserId msg (orDefault siteIdOpt (currentSiteId w))"
    using online unreadable by (simp add: sendMessage_def Let_def)
  show ?thesis
    unfolding r by (simp add: storeOffline_wsWrites storeOffline_accepted)
qed

theorem sendMessage_unreadable_store_queues_witness:
  "isOnline (exampleWorld\<lparr>offlineReadFails := True\<rparr>) \<and>
   hasMessages (exampleWorld\<lparr>offlineReadFails := True\<rparr>) 5 ''s1'' = Inl ''StorageError'' \<and>
   fst (sendMessage (exampleWorld\<lparr>offlineReadFails := True\<rparr>) 5 ''B'' None) =
     Inr \<lparr>sent = False,
          message = Some \<lparr>entrySiteId = ''s1'', touserid = 5, smallmessage = ''B''\<rparr>\<rparr> \<and>
   wsWrites (snd (sendMessage (exampleWorld\<lparr>offlineReadFails := True\<rparr>) 5 ''B'' None)) = []"
proof -
  let ?w = "exampleWorld\<lparr>offlineReadFails := True\<rparr>"
  have sid: "orDefault None (currentSiteId ?w) = ''s1''"
    by (simp add: orDefault_def exampleWorld_def)
  have st: "isOnline ?w" "\<not> offlineWriteFails ?w" "wsWrites ?w = []"
    by (simp_all add: exampleWorld_def)
  have unreadable: "hasMessages ?w 5 ''s1'' = Inl ''StorageError''"
    by (simp add: hasMessages_def)
  note t = sendMessage_unreadable_store_queues
             [where w = ?w and siteIdOpt = None and toUserId = 5 and msg = "''B''",
              unfolded sid, OF st(1) unreadable, THEN conjunct2]
  from t st unreadable show ?thesis by simp
qed

lemma getSite_Inr: "getSite w s = Inr h \<Longrightarrow>
    fst h = orDefault s (currentSiteId w) \<and> sites w (fst h) = Some (snd h)"
  by (auto simp: getSite_def Let_def split: option.splits)

text \<open>
  Claim C7. A successful \<open>invalidateDiscussionsCache\<close> leaves the site's cache without
  an entry under the discussions key and without one under the contacts key, every
  other key keeping its entry; a later read of contacts finds nothing cached.
\<close>

theorem invalidateDiscussionsCache_clears_contacts:
  assumes ok: "invalidateDiscussionsCache w siteIdOpt = (Inr u, w')"
  shows "\<exists>st st'. sites w (orDefault siteIdOpt (currentSiteId w)) = Some st \<and>
           sites w' (orDefault siteIdOpt (currentSiteId w)) = Some st' \<and>
           wsCache st' getCacheKeyForDiscussions = None \<and>
           wsCache st' getCacheKeyForContacts = None \<and>
           (\<forall>k. k \<noteq> getCacheKeyForDiscussions \<and> k \<noteq> getCacheKeyForContacts \<longrightarrow>
                wsCache st' k = wsCache st k) \<and>
           cachedValue w' (orDefault siteIdOpt (currentSiteId w)) getCacheKeyForDiscussions = None \<and>
           cachedValue w' (orDefault siteIdOpt (currentSiteId w)) getCacheKeyForContacts = None"
proof -
  let ?sid = "orDefault siteIdOpt (currentSiteId w)"
  obtain h where h: "getSite w siteIdOpt = Inr h"
    using ok by (cases "getSite w siteIdOpt") (auto simp: invalidateDiscussionsCache_def)
  have hs: "fst h = ?sid" "sites w ?sid = Some (snd h)"
    using getSite_Inr [OF h] by auto
  have nf: "\<not> cacheFails (snd h)"
    using ok h by (auto simp: invalidateDiscussionsCache_def invalidateWsCacheForKey_def
        split: if_splits)
  define st1 where "st1 = (snd h)\<lparr>wsCache := (wsCache (snd h))(getCacheKeyForDiscussions := None)\<rparr>"
  define w1 where "w1 = w\<lparr>sites := (sites w)(?sid \<mapsto> st1)\<rparr>"
  have first: "invalidateWsCacheForKey w h getCacheKeyForDiscussions = (Inr (), w1)"
    using nf hs by (simp add: invalidateWsCacheForKey_def w1_def st1_def)
  have "orDefault (Some ?sid) (currentSiteId w1) = ?sid"
    by (simp add: w1_def orDefault_idem)
  then have g1: "getSite w1 (Some (getId h)) = Inr (?sid, st1)"
    by (simp add: getSite_def getId_def hs w1_def)
  have second: "invalidateDiscussionsCache w siteIdOpt =
                  invalidateWsCacheForKey w1 (?sid, st1) getCacheKeyForContacts"
    using h first g1 by (simp add: invalidateDiscussionsCache_def invalidateContactsCache_def)
  have w': "w' = w1\<lparr>sites := (sites w1)(?sid \<mapsto>
                 st1\<lparr>wsCache := (wsCache st1)(getCacheKeyForContacts := None)\<rparr>)\<rparr>"
    using ok second nf by (simp add: invalidateWsCacheForKey_def st1_def split: if_splits)
  show ?thesis
    using hs by (simp add: w' w1_def st1_def cachedValue_def)
qed

theorem invalidateDiscussionsCache_clears_contacts_witness:
  "cachedValue exampleWorld ''s1'' getCacheKeyForContacts = Some ''c0'' \<and>
   cachedValue exampleWorld ''s1'' getCacheKeyForDiscussions = Some ''d0'' \<and>
   fst (invalidateDiscussionsCache exampleWorld None) = Inr () \<and>
   cachedValue (snd (invalidateDiscussionsCache exampleWorld None)) ''s1''
     getCacheKeyForContacts = None \<and>
   cachedValue (snd (invalidateDiscussionsCache exampleWorld None)) ''s1''
     getCacheKeyForDiscussions = None \<and>
   cachedValue (snd (invalidateDiscussionsCache exampleWorld None)) ''s1''
     (getCacheKeyForDiscussion 5) = Some ''m0''"
proof -
  have sid: "orDefault None (currentSiteId exampleWorld) = ''s1''"
    by (simp add: orDefault_def exampleWorld_def)
  have before: "cachedValue exampleWorld ''s1'' getCacheKeyForContacts = Some ''c0''"
               "cachedValue exampleWorld ''s1'' getCacheKeyForDiscussions = Some ''d0''"
    by (simp_all add: cachedValue_def exampleWorld_def getCacheKeyForContacts_def
        getCacheKeyForDiscussions_def ROOT_CACHE_KEY_def)
  have ok: "fst (invalidateDiscussionsCache exampleWorld None) = Inr ()"
    by (simp add: invalidateDiscussionsCache_def invalidateContactsCache_def getSite_def
        invalidateWsCacheForKey_def orDefault_def getId_def exampleWorld_def Let_def)
  then have eq: "invalidateDiscussionsCache exampleWorld None =
                   (Inr (), snd (invalidateDiscussionsCache exampleWorld None))"
    by (metis prod.collapse)
  note t = invalidateDiscussionsCache_clears_contacts [OF eq, unfolded sid]
  have key5: "getCacheKeyForDiscussion 5 = ''mmaMessages:discussion:5''"
    by code_simp
  have other: "cachedValue (snd (invalidateDiscussionsCache exampleWorld None)) ''s1''
     (getCacheKeyForDiscussion 5) = Some ''m0''"
    by (simp add: invalidateDiscussionsCache_def invalidateContactsCache_def getSite_def
        invalidateWsCacheForKey_def orDefault_def getId_def exampleWorld_def Let_def
        cachedValue_def key5 getCacheKeyForDiscussions_def
        getCacheKeyForContacts_def ROOT_CACHE_KEY_def)
  from t before ok other show ?thesis by blast
qed

text \<open>
  \<open>sendMessage\<close> hands \<open>sendMessageOnline\<close> no site identifier: the live write, when
  there is one, is a single write on the current site.
\<close>

lemma sendMessageOnline_wsWrites:
  "wsWrites (snd (sendMessageOnline w u m s)) = wsWrites w \<or>
   wsWrites (snd (sendMessageOnline w u m s)) =
     wsWrites w @ [\<lparr>writeSiteId = orDefault s (currentSiteId w),
                     wsfunction = ''core_message_send_instant_messages'',
                     wsMessages = [(u, m, 1)]\<rparr>]"
proof (cases "getSite w (Some (orDefault s (currentSiteId w)))")
  case (Inl e)
  then show ?thesis
    by (simp add: sendMessageOnline_def sendMessagesOnline_def Let_def)
next
  case (Inr h)
  then have h: "fst h = orDefault s (currentSiteId w)"
    using getSite_Inr [OF Inr] by (simp add: orDefault_idem)
  show ?thesis
    using Inr h
    by (auto simp: sendMessageOnline_def sendMessagesOnline_def siteWrite_def Let_def
        invalidateDiscussionCache_offline split: sum.splits option.splits)
qed

text \<open>
  The live write goes to the current site whatever site the call names:
  \<open>sendMessageOnline\<close> has a site parameter and \<open>sendMessage\<close> calls it without one, while
  \<open>hasMessages\<close> and \<open>storeOffline\<close> are given the named site.
\<close>

lemma sendMessage_live_write_site:
  "wsWrites (snd (sendMessage w u m s)) = wsWrites w \<or>
   wsWrites (snd (sendMessage w u m s)) =
     wsWrites w @ [\<lparr>writeSiteId = orDefault None (currentSiteId w),
                     wsfunction = ''core_message_send_instant_messages'',
                     wsMessages = [(u, m, 1)]\<rparr>]"
proof (cases "isOnline w \<and> hasMessages w u (orDefault s (currentSiteId w)) = Inr False")
  case False
  then have "sendMessage w u m s = storeOffline w u m (orDefault s (currentSiteId w))"
    by (cases "hasMessages w u (orDefault s (currentSiteId w))") (auto simp: sendMessage_def Let_def)
  then show ?thesis by (simp add: storeOffline_wsWrites)
next
  case True
  obtain r w1 where r: "sendMessageOnline w u m None = (r, w1)"
    by (cases "sendMessageOnline w u m None") auto
  have w1: "wsWrites w1 = wsWrites w \<or>
            wsWrites w1 = wsWrites w @ [\<lparr>writeSiteId = orDefault None (currentSiteId w),
                     wsfunction = ''core_message_send_instant_messages'',
                     wsMessages = [(u, m, 1)]\<rparr>]"
    using sendMessageOnline_wsWrites [of w u m None] r by simp
  show ?thesis
  proof (cases r)
    case (Inr x)
    then show ?thesis using True r w1 by (simp add: sendMessage_def Let_def)
  next
    case (Inl d)
    then show ?thesis
      using True r w1 by (cases "wserror d") (simp_all add: sendMessage_def Let_def storeOffline_wsWrites)
  qed
qed

text \<open>
  Claim C2 at its failing input. The device is online, \<open>s1\<close> is the current site, and the
  conversation with user 5 has a pending offline message on \<open>s1\<close> and none on \<open>s2\<close>.
  \<open>sendMessage\<close> for user 5 on \<open>s2\<close> checks the queue of \<open>s2\<close>, finds it empty and sends
  live; the write goes to \<open>s1\<close>, to the conversation whose earlier message is still
  waiting in the queue, and nothing is stored offline. The same message sent on \<open>s1\<close> is
  stored offline and nothing is sent.
\<close>

theorem sendMessage_other_site_sent_live:
  "isOnline twoSiteWorld \<and> currentSiteId twoSiteWorld = ''s1'' \<and>
   offlineMessages twoSiteWorld = [\<lparr>entrySiteId = ''s1'', touserid = 5, smallmessage = ''A''\<rparr>] \<and>
   hasMessages twoSiteWorld 5 ''s1'' = Inr True \<and>
   hasMessages twoSiteWorld 5 ''s2'' = Inr False \<and>
   fst (sendMessage twoSiteWorld 5 ''B'' (Some ''s2'')) = Inr \<lparr>sent = True, message = None\<rparr> \<and>
   wsWrites (snd (sendMessage twoSiteWorld 5 ''B'' (Some ''s2''))) =
     [\<lparr>writeSiteId = ''s1'', wsfunction = ''core_message_send_instant_messages'',
       wsMessages = [(5, ''B'', 1)]\<rparr>] \<and>
   offlineMessages (snd (sendMessage twoSiteWorld 5 ''B'' (Some ''s2''))) =
     [\<lparr>entrySiteId = ''s1'', touserid = 5, smallmessage = ''A''\<rparr>] \<and>
   fst (sendMessage twoSiteWorld 5 ''B'' (Some ''s1'')) =
     Inr \<lparr>sent = False,
          message = Some \<lparr>entrySiteId = ''s1'', touserid = 5, smallmessage = ''B''\<rparr>\<rparr> \<and>
   wsWrites (snd (sendMessage twoSiteWorld 5 ''B'' (Some ''s1''))) = []"
  by (simp add: sendMessage_def sendMessageOnline_def sendMessagesOnline_def getSite_def
      siteWrite_def hasMessages_def orDefault_def twoSiteWorld_def pendingWorld_def
      exampleWorld_def Let_def firstRejected_def storeOffline_def saveMessage_def
      invalidateDiscussionCache_def invalidateWsCacheForKey_def)

section \<open>Properties of sorting\<close>

lemma digitsValue_snoc: "digitsValue (ds @ [c]) = 10 * digitsValue ds + (of_char c - 48)"
  by (simp add: digitsValue_def)

lemma digit_char: "d < 10 \<Longrightarrow> of_char (char_of (48 + d :: nat)) = 48 + d"
  by simp

lemma decimal_digits: "list_all isDigit (decimal n) \<and> decimal n \<noteq> [] \<and> digitsValue (decimal n) = n"
proof (induction n rule: decimal.induct)
  case (1 n)
  have d: "isDigit (char_of (48 + n mod 10))" by (simp add: isDigit_def)
  show ?case
  proof (cases "n < 10")
    case True
    then show ?thesis
      using d by (subst (1 2 3) decimal.simps) (simp add: digitsValue_def)
  next
    case False
    then show ?thesis
      using d 1 by (subst (1 2 3) decimal.simps) (simp add: digitsValue_snoc)
  qed
qed

lemma takeWhile_all: "list_all P xs \<Longrightarrow> takeWhile P xs = xs"
  by (induction xs) auto

lemma decimal_hd: "decimal n = c # cs \<Longrightarrow> isDigit c"
  using decimal_digits [of n] by simp

lemma isDigit_not_special: "isDigit c \<Longrightarrow> \<not> isWhiteSpace c \<and> c \<noteq> CHR ''-'' \<and> c \<noteq> CHR ''+''"
  by (auto simp: isDigit_def isWhiteSpace_def)

lemma parseInt10_decimal: "parseInt10 (decimal n) = Some (int n)"
proof -
  obtain c cs where cs: "decimal n = c # cs"
    using decimal_digits [of n] by (cases "decimal n") auto
  have c: "\<not> isWhiteSpace c" "c \<noteq> CHR ''-''" "c \<noteq> CHR ''+''"
    using decimal_hd [OF cs] isDigit_not_special by auto
  have tw: "takeWhile isDigit (c # cs) = c # cs"
    using decimal_digits [of n] takeWhile_all [of isDigit "decimal n"] by (simp add: cs)
  have "digitsValue (c # cs) = n"
    using decimal_digits [of n] by (simp add: cs)
  then show ?thesis
    using c tw unfolding parseInt10_def cs by (simp add: Let_def)
qed

lemma parseInt_Num: "parseInt (Num i) = Some i"
proof (cases "i < 0")
  case False
  then show ?thesis by (simp add: parseInt_def parseInt10_decimal)
next
  case True
  obtain c cs where cs: "decimal (nat (- i)) = c # cs"
    using decimal_digits [of "nat (- i)"] by (cases "decimal (nat (- i))") auto
  have tw: "takeWhile isDigit (c # cs) = c # cs"
    using decimal_digits [of "nat (- i)"] takeWhile_all [of isDigit "decimal (nat (- i))"]
    by (simp add: cs)
  have v: "digitsValue (c # cs) = nat (- i)"
    using decimal_digits [of "nat (- i)"] by (simp add: cs)
  have ws: "\<not> isWhiteSpace CHR ''-''" by (simp add: isWhiteSpace_def)
  show ?thesis
    using True tw v ws by (simp add: parseInt_def parseInt10_def Let_def cs)
qed

lemma set_shiftInsert: "set (shiftInsert f e acc) = insert e (set acc)"
  by (induction acc) auto

lemma mset_shiftInsert: "mset (shiftInsert f e acc) = add_mset e (mset acc)"
  by (induction acc) auto

lemma mset_foldl_shiftInsert:
  "mset (foldl (\<lambda>prefix x. shiftInsert f x prefix) acc xs) = mset acc + mset xs"
  by (induction xs arbitrary: acc) (auto simp: mset_shiftInsert)

lemma mset_arraySort: "mset (arraySort f xs) = mset xs"
  by (simp add: arraySort_def mset_foldl_shiftInsert)

lemma shiftInsert_descending:
  assumes after: "\<And>a b. P a \<Longrightarrow> P b \<Longrightarrow> 0 < f a b \<Longrightarrow> le b a"
    and before: "\<And>a b. P a \<Longrightarrow> P b \<Longrightarrow> \<not> 0 < f a b \<Longrightarrow> le a b"
    and trans: "\<And>a b c. le a b \<Longrightarrow> le b c \<Longrightarrow> le a c"
    and e: "P e"
  shows "\<forall>x \<in> set acc. P x \<Longrightarrow> sorted_wrt (\<lambda>x y. le y x) acc \<Longrightarrow>
         sorted_wrt (\<lambda>x y. le y x) (shiftInsert f e acc)"
proof (induction acc)
  case Nil
  then show ?case by simp
next
  case (Cons tmp rest)
  show ?case
  proof (cases "0 < f tmp e")
    case True
    have "le e tmp" using after [of tmp e] Cons.prems(1) e True by simp
    moreover have "sorted_wrt (\<lambda>x y. le y x) (shiftInsert f e rest)"
      using Cons by simp
    ultimately show ?thesis
      using True Cons.prems(2) by (auto simp: set_shiftInsert)
  next
    case False
    have te: "le tmp e" using before [of tmp e] Cons.prems(1) e False by simp
    have "\<forall>r \<in> set rest. le r e"
      using Cons.prems(2) te trans by auto
    then show ?thesis
      using False te Cons.prems(2) by auto
  qed
qed

lemma foldl_shiftInsert_descending:
  assumes after: "\<And>a b. P a \<Longrightarrow> P b \<Longrightarrow> 0 < f a b \<Longrightarrow> le b a"
    and before: "\<And>a b. P a \<Longrightarrow> P b \<Longrightarrow> \<not> 0 < f a b \<Longrightarrow> le a b"
    and trans: "\<And>a b c. le a b \<Longrightarrow> le b c \<Longrightarrow> le a c"
  shows "\<forall>x \<in> set xs. P x \<Longrightarrow> \<forall>x \<in> set acc. P x \<Longrightarrow> sorted_wrt (\<lambda>x y. le y x) acc \<Longrightarrow>
         sorted_wrt (\<lambda>x y. le y x) (foldl (\<lambda>prefix x. shiftInsert f x prefix) acc xs)"
proof (induction xs arbitrary: acc)
  case Nil
  then show ?case by simp
next
  case (Cons x xs)
  have "sorted_wrt (\<lambda>x y. le y x) (shiftInsert f x acc)"
    using shiftInsert_descending [of P f le x acc] after before trans Cons.prems by auto
  moreover have "\<forall>y \<in> set (shiftInsert f x acc). P y"
    using Cons.prems by (simp add: set_shiftInsert)
  ultimately show ?case
    using Cons.IH [of "shiftInsert f x acc"] Cons.prems(1) by simp
qed

lemma arraySort_sorted_wrt:
  assumes after: "\<And>a b. P a \<Longrightarrow> P b \<Longrightarrow> 0 < f a b \<Longrightarrow> le b a"
    and before: "\<And>a b. P a \<Longrightarrow> P b \<Longrightarrow> \<not> 0 < f a b \<Longrightarrow> le a b"
    and trans: "\<And>a b c. le a b \<Longrightarrow> le b c \<Longrightarrow> le a c"
    and wf: "\<forall>x \<in> set xs. P x"
  shows "sorted_wrt le (arraySort f xs)"
proof -
  have "sorted_wrt (\<lambda>x y. le y x) (foldl (\<lambda>prefix x. shiftInsert f x prefix) [] xs)"
    using foldl_shiftInsert_descending [of P f le xs "[]"] after before trans wf by simp
  then show ?thesis
    by (simp add: arraySort_def sorted_wrt_rev)
qed


lemma compareMessages_status:
  "(0 < compareMessages a b \<longrightarrow> (pending b \<longrightarrow> pending a)) \<and>
   (\<not> 0 < compareMessages a b \<longrightarrow> (pending a \<longrightarrow> pending b))"
  by (simp add: compareMessages_def Let_def)

lemma compareMessages_time:
  assumes "parseInt (timecreated a) = Some x" "parseInt (timecreated b) = Some y"
    and "pending a = pending b"
  shows "(0 < compareMessages a b \<longrightarrow> y \<le> x) \<and> (\<not> 0 < compareMessages a b \<longrightarrow> x \<le> y)"
  using assms by (auto simp: compareMessages_def Let_def)

lemma compareMessages_id:
  assumes "parseInt (timecreated a) = Some x" "parseInt (timecreated b) = Some x"
    and "\<not> pending a" "\<not> pending b" "id' a = Some i" "id' b = Some j" "i \<noteq> 0"
  shows "(0 < compareMessages a b \<longrightarrow> j \<le> i) \<and> (\<not> 0 < compareMessages a b \<longrightarrow> i \<le> j)"
  using assms by (auto simp: compareMessages_def Let_def truthyId_def)

text \<open>
  Claim C6. The output of \<open>sortMessages\<close> is a rearrangement of its input in which no
  pending message comes before a message that is not pending, whatever their creation
  times. Where every creation time parses to an integer, messages of the same pending
  status are in order of creation time; where moreover every message that is not
  pending carries a non-zero identifier, those with equal creation time are in order of
  identifier.
\<close>

theorem sortMessages_order:
  "mset (sortMessages ms) = mset ms \<and>
   sorted_wrt (\<lambda>a b. pending a \<longrightarrow> pending b) (sortMessages ms) \<and>
   ((\<forall>m \<in> set ms. parseInt (timecreated m) \<noteq> None) \<longrightarrow>
      sorted_wrt (\<lambda>a b. pending a = pending b \<longrightarrow>
                    numGe (parseInt (timecreated b)) (parseInt (timecreated a)))
        (sortMessages ms)) \<and>
   ((\<forall>m \<in> set ms. parseInt (timecreated m) \<noteq> None \<and> (\<not> pending m \<longrightarrow> truthyId (id' m))) \<longrightarrow>
      sorted_wrt (\<lambda>a b. \<not> pending a \<and> \<not> pending b \<and>
                    parseInt (timecreated a) = parseInt (timecreated b) \<longrightarrow>
                    numGe (id' b) (id' a))
        (sortMessages ms))"
proof (intro conjI impI)
  show "mset (sortMessages ms) = mset ms"
    by (simp add: sortMessages_def mset_arraySort)
next
  show "sorted_wrt (\<lambda>a b. pending a \<longrightarrow> pending b) (sortMessages ms)"
    unfolding sortMessages_def
    by (rule arraySort_sorted_wrt [where P = "\<lambda>m. True"])
       (use compareMessages_status in blast)+
next
  assume wf: "\<forall>m \<in> set ms. parseInt (timecreated m) \<noteq> None"
  define tv where "tv = (\<lambda>m :: 'a message_data_scheme. the (parseInt (timecreated m)))"
  define le where "le = (\<lambda>a b :: 'a message_data_scheme.
      (\<not> pending a \<and> pending b) \<or> (pending a = pending b \<and> tv a \<le> tv b))"
  have s: "sorted_wrt le (arraySort compareMessages ms)"
  proof (rule arraySort_sorted_wrt [where P = "\<lambda>m. parseInt (timecreated m) \<noteq> None"])
    fix a b :: "'a message_data_scheme"
    assume p: "parseInt (timecreated a) \<noteq> None" "parseInt (timecreated b) \<noteq> None"
    then obtain x y where xy: "parseInt (timecreated a) = Some x" "parseInt (timecreated b) = Some y"
      by auto
    { assume "0 < compareMessages a b"
      then show "le b a"
        using compareMessages_status [of a b] compareMessages_time [OF xy]
        by (auto simp: le_def tv_def xy) }
    { assume "\<not> 0 < compareMessages a b"
      then show "le a b"
        using compareMessages_status [of a b] compareMessages_time [OF xy]
        by (auto simp: le_def tv_def xy) }
  next
    fix a b c :: "'a message_data_scheme"
    assume "le a b" "le b c"
    then show "le a c" by (auto simp: le_def)
  next
    show "\<forall>x \<in> set ms. parseInt (timecreated x) \<noteq> None" by (rule wf)
  qed
  have in_ms: "set (sortMessages ms) = set ms"
    using mset_arraySort [of compareMessages ms] by (metis sortMessages_def set_mset_mset)
  show "sorted_wrt (\<lambda>a b. pending a = pending b \<longrightarrow>
                    numGe (parseInt (timecreated b)) (parseInt (timecreated a)))
        (sortMessages ms)"
  proof (rule sorted_wrt_mono_rel [OF _ s [folded sortMessages_def]])
    fix a b assume ab: "a \<in> set (sortMessages ms)" "b \<in> set (sortMessages ms)" "le a b"
    then obtain x y where
      "parseInt (timecreated a) = Some x" "parseInt (timecreated b) = Some y"
      using wf in_ms by (metis not_None_eq)
    then show "pending a = pending b \<longrightarrow>
                 numGe (parseInt (timecreated b)) (parseInt (timecreated a))"
      using ab(3) by (auto simp: le_def tv_def)
  qed
next
  assume wf: "\<forall>m \<in> set ms. parseInt (timecreated m) \<noteq> None \<and>
                (\<not> pending m \<longrightarrow> truthyId (id' m))"
  define tv where "tv = (\<lambda>m :: 'a message_data_scheme. the (parseInt (timecreated m)))"
  define iv where "iv = (\<lambda>m :: 'a message_data_scheme. the (id' m))"
  define P where "P = (\<lambda>m :: 'a message_data_scheme.
      parseInt (timecreated m) \<noteq> None \<and> (\<not> pending m \<longrightarrow> truthyId (id' m)))"
  define le where "le = (\<lambda>a b :: 'a message_data_scheme.
      (\<not> pending a \<and> pending b) \<or>
      (pending a = pending b \<and>
         (tv a < tv b \<or> (tv a = tv b \<and> (pending a \<or> iv a \<le> iv b)))))"
  have s: "sorted_wrt le (arraySort compareMessages ms)"
  proof (rule arraySort_sorted_wrt [where P = P])
    fix a b :: "'a message_data_scheme"
    assume p: "P a" "P b"
    then obtain x y where xy: "parseInt (timecreated a) = Some x" "parseInt (timecreated b) = Some y"
      by (auto simp: P_def)
    have ids: "\<not> pending a \<Longrightarrow> \<exists>i. id' a = Some i \<and> i \<noteq> 0"
              "\<not> pending b \<Longrightarrow> \<exists>j. id' b = Some j \<and> j \<noteq> 0"
      using p by (auto simp: P_def truthyId_def split: option.splits)
    { assume c: "0 < compareMessages a b"
      show "le b a"
      proof (cases "pending a = pending b")
        case False
        then show ?thesis using compareMessages_status [of a b] c by (auto simp: le_def)
      next
        case True
        note t = compareMessages_time [OF xy True]
        show ?thesis
        proof (cases "x = y \<and> \<not> pending a")
          case False
          then show ?thesis using t c True by (auto simp: le_def tv_def xy)
        next
          case same: True
          then obtain i j where ij: "id' a = Some i" "id' b = Some j" "i \<noteq> 0"
            using ids True by auto
          have "j \<le> i"
            using compareMessages_id [of a x b i j] xy same True ij c by simp
          then show ?thesis using same True by (simp add: le_def tv_def iv_def xy ij)
        qed
      qed }
    { assume c: "\<not> 0 < compareMessages a b"
      show "le a b"
      proof (cases "pending a = pending b")
        case False
        then show ?thesis using compareMessages_status [of a b] c by (auto simp: le_def)
      next
        case True
        note t = compareMessages_time [OF xy True]
        show ?thesis
        proof (cases "x = y \<and> \<not> pending a")
          case False
          then show ?thesis using t c True by (auto simp: le_def tv_def xy)
        next
          case same: True
          then obtain i j where ij: "id' a = Some i" "id' b = Some j" "i \<noteq> 0"
            using ids True by auto
          have "i \<le> j"
            using compareMessages_id [of a x b i j] xy same True ij c by simp
          then show ?thesis using same True by (simp add: le_def tv_def iv_def xy ij)
        qed
      qed }
  next
    fix a b c :: "'a message_data_scheme"
    assume "le a b" "le b c"
    then show "le a c" unfolding le_def by (elim disjE conjE) auto
  next
    show "\<forall>x \<in> set ms. P x" using wf by (simp add: P_def)
  qed
  have in_ms: "set (sortMessages ms) = set ms"
    using mset_arraySort [of compareMessages ms] by (metis sortMessages_def set_mset_mset)
  show "sorted_wrt (\<lambda>a b. \<not> pending a \<and> \<not> pending b \<and>
                    parseInt (timecreated a) = parseInt (timecreated b) \<longrightarrow>
                    numGe (id' b) (id' a))
        (sortMessages ms)"
  proof (rule sorted_wrt_mono_rel [OF _ s [folded sortMessages_def]])
    fix a b assume ab: "a \<in> set (sortMessages ms)" "b \<in> set (sortMessages ms)" "le a b"
    then have "P a" "P b" using wf in_ms by (auto simp: P_def)
    then show "\<not> pending a \<and> \<not> pending b \<and>
                 parseInt (timecreated a) = parseInt (timecreated b) \<longrightarrow>
                 numGe (id' b) (id' a)"
      using ab(3) by (auto simp: le_def tv_def iv_def P_def truthyId_def split: option.splits)
  qed
qed

lemma exampleMessages_sorted:
  "sortMessages exampleMessages =
     [\<lparr>pending = False, timecreated = Str ''5'', id' = Some 9\<rparr>,
      \<lparr>pending = False, timecreated = Num 7, id' = Some 2\<rparr>,
      \<lparr>pending = False, timecreated = Num 7, id' = Some 3\<rparr>,
      \<lparr>pending = True, timecreated = Num 1, id' = None\<rparr>]"
  by code_simp

lemma exampleMessages_wf:
  "\<forall>m \<in> set exampleMessages.
     parseInt (timecreated m) \<noteq> None \<and> (\<not> pending m \<longrightarrow> truthyId (id' m))"
  by code_simp

theorem sortMessages_order_witness:
  "list_all (\<lambda>m. parseInt (timecreated m) \<noteq> None \<and> (pending m \<or> truthyId (id' m)))
     exampleMessages \<and>
   sorted_wrt (\<lambda>a b. pending a \<longrightarrow> pending b) (sortMessages exampleMessages) \<and>
   sorted_wrt (\<lambda>a b. pending a = pending b \<longrightarrow>
                 numGe (parseInt (timecreated b)) (parseInt (timecreated a)))
     (sortMessages exampleMessages) \<and>
   sorted_wrt (\<lambda>a b. \<not> pending a \<and> \<not> pending b \<and>
                 parseInt (timecreated a) = parseInt (timecreated b) \<longrightarrow>
                 numGe (id' b) (id' a))
     (sortMessages exampleMessages) \<and>
   map id' (sortMessages exampleMessages) = [Some 9, Some 2, Some 3, None]"
proof -
  note t = sortMessages_order [of exampleMessages]
  have "map id' (sortMessages exampleMessages) = [Some 9, Some 2, Some 3, None]"
    by (simp add: exampleMessages_sorted)
  moreover have "list_all (\<lambda>m. parseInt (timecreated m) \<noteq> None \<and>
                              (pending m \<or> truthyId (id' m))) exampleMessages"
    using exampleMessages_wf by (auto simp: list_all_iff)
  ultimately show ?thesis using t exampleMessages_wf by blast
qed

section \<open>Properties of the web service provider\<close>

lemma performPostThen_falsy:
  "\<not> truthy response \<Longrightarrow> responseExpected preSets = Some True \<Longrightarrow>
     performPostThen js method preSets response = Inl (CoreError ''core.serverconnection'')"
  by (simp add: performPostThen_def Let_def)

lemma getProp_primitive [simp]:
  "getProp (JNumber n) k = JUndefined" "getProp (JBool b) k = JUndefined"
  "getProp (JString s) k = JUndefined"
  by simp_all

text \<open>
  Claim C8, amended. For a response that is not falsy and whose type is not the expected
  one: a string with \<open>number\<close> expected is converted by \<open>Number\<close> and fails as an
  invalid response exactly when that gives \<open>NaN\<close>; a string with \<open>boolean\<close> expected
  becomes true or false when it is exactly \<open>true\<close> or \<open>false\<close> and fails as an invalid
  response otherwise; every other mismatch fails as an invalid response. A falsy
  response never reaches the type check as it is: where a response is expected the call
  fails with the server connection error, and otherwise the response is replaced by the
  empty object, which is an invalid response unless an object is expected.
\<close>

theorem performPostThen_mismatch:
  "(truthy response \<and> Some (typeOf response) \<noteq> typeExpected preSets \<longrightarrow>
      performPostThen js method preSets response =
        (case response of
           JString s \<Rightarrow>
             if typeExpected preSets = Some ''number'' then
               (if isNaN (Number js s) then Inl (CoreError ''core.errorinvalidresponse'')
                else Inr (JNumber (Number js s)))
             else if typeExpected preSets = Some ''boolean'' then
               (if s = ''true'' then Inr (JBool True)
                else if s = ''false'' then Inr (JBool False)
                else Inl (CoreError ''core.errorinvalidresponse''))
             else Inl (CoreError ''core.errorinvalidresponse'')
         | _ \<Rightarrow> Inl (CoreError ''core.errorinvalidresponse''))) \<and>
   (\<not> truthy response \<and> responseExpected preSets = Some True \<longrightarrow>
      performPostThen js method preSets response = Inl (CoreError ''core.serverconnection'')) \<and>
   (\<not> truthy response \<and> responseExpected preSets \<noteq> Some True \<longrightarrow>
      performPostThen js method preSets response =
        (if typeExpected preSets = Some ''object'' then Inr (JObject [])
         else Inl (CoreError ''core.errorinvalidresponse'')))"
proof (intro conjI impI)
  assume "truthy response \<and> Some (typeOf response) \<noteq> typeExpected preSets"
  then show "performPostThen js method preSets response =
        (case response of
           JString s \<Rightarrow>
             if typeExpected preSets = Some ''number'' then
               (if isNaN (Number js s) then Inl (CoreError ''core.errorinvalidresponse'')
                else Inr (JNumber (Number js s)))
             else if typeExpected preSets = Some ''boolean'' then
               (if s = ''true'' then Inr (JBool True)
                else if s = ''false'' then Inr (JBool False)
                else Inl (CoreError ''core.errorinvalidresponse''))
             else Inl (CoreError ''core.errorinvalidresponse'')
         | _ \<Rightarrow> Inl (CoreError ''core.errorinvalidresponse''))"
    by (cases response) (simp_all add: performPostThen_def Let_def)
next
  assume "\<not> truthy response \<and> responseExpected preSets = Some True"
  then show "performPostThen js method preSets response = Inl (CoreError ''core.serverconnection'')"
    by (simp add: performPostThen_falsy)
next
  assume "\<not> truthy response \<and> responseExpected preSets \<noteq> Some True"
  then show "performPostThen js method preSets response =
        (if typeExpected preSets = Some ''object'' then Inr (JObject [])
         else Inl (CoreError ''core.errorinvalidresponse''))"
    by (auto simp: performPostThen_def Let_def)
qed

theorem performPostThen_mismatch_witness:
  "truthy (JString ''12'') \<and> Some (typeOf (JString ''12'')) \<noteq> typeExpected numberPreSets \<and>
   performPostThen exampleBuiltins ''m'' numberPreSets (JString ''12'') = Inr (JNumber (Finite 12)) \<and>
   performPostThen exampleBuiltins ''m'' numberPreSets (JString ''x'')
     = Inl (CoreError ''core.errorinvalidresponse'') \<and>
   performPostThen exampleBuiltins ''m'' (numberPreSets\<lparr>typeExpected := Some ''boolean''\<rparr>)
     (JString ''false'') = Inr (JBool False) \<and>
   performPostThen exampleBuiltins ''m'' (numberPreSets\<lparr>typeExpected := Some ''boolean''\<rparr>)
     (JString ''False'') = Inl (CoreError ''core.errorinvalidresponse'') \<and>
   performPostThen exampleBuiltins ''m'' numberPreSets (JObject [(''a'', JNull)])
     = Inl (CoreError ''core.errorinvalidresponse'') \<and>
   performPostThen exampleBuiltins ''m'' numberPreSets JNull
     = Inl (CoreError ''core.serverconnection'') \<and>
   performPostThen exampleBuiltins ''m'' (numberPreSets\<lparr>responseExpected := Some False\<rparr>) JNull
     = Inl (CoreError ''core.errorinvalidresponse'')"
proof -
  let ?b = "numberPreSets\<lparr>typeExpected := Some ''boolean''\<rparr>"
  let ?n = "numberPreSets\<lparr>responseExpected := Some False\<rparr>"
  have t: "truthy (JString ''12'')" "truthy (JString ''x'')" "truthy (JString ''false'')"
          "truthy (JString ''False'')" "truthy (JObject [(''a'', JNull)])" "\<not> truthy JNull"
    by simp_all
  have m: "Some (typeOf (JString ''12'')) \<noteq> typeExpected numberPreSets"
          "Some (typeOf (JString ''x'')) \<noteq> typeExpected numberPreSets"
          "Some (typeOf (JString ''false'')) \<noteq> typeExpected ?b"
          "Some (typeOf (JString ''False'')) \<noteq> typeExpected ?b"
          "Some (typeOf (JObject [(''a'', JNull)])) \<noteq> typeExpected numberPreSets"
          "responseExpected numberPreSets = Some True"
          "responseExpected ?n \<noteq> Some True" "typeExpected ?n \<noteq> Some ''object''"
    by (simp_all add: numberPreSets_def)
  note a = performPostThen_mismatch [of "JString ''12''" numberPreSets exampleBuiltins "''m''",
             THEN conjunct1, rule_format, OF conjI, OF t(1) m(1)]
  note b = performPostThen_mismatch [of "JString ''x''" numberPreSets exampleBuiltins "''m''",
             THEN conjunct1, rule_format, OF conjI, OF t(2) m(2)]
  note c = performPostThen_mismatch [of "JString ''false''" ?b exampleBuiltins "''m''",
             THEN conjunct1, rule_format, OF conjI, OF t(3) m(3)]
  note d = performPostThen_mismatch [of "JString ''False''" ?b exampleBuiltins "''m''",
             THEN conjunct1, rule_format, OF conjI, OF t(4) m(4)]
  note e = performPostThen_mismatch [of "JObject [(''a'', JNull)]" numberPreSets exampleBuiltins "''m''",
             THEN conjunct1, rule_format, OF conjI, OF t(5) m(5)]
  note f = performPostThen_mismatch [of JNull numberPreSets exampleBuiltins "''m''",
             THEN conjunct2, THEN conjunct1, rule_format, OF conjI, OF t(6) m(6)]
  note g = performPostThen_mismatch [of JNull ?n exampleBuiltins "''m''",
             THEN conjunct2, THEN conjunct2, rule_format, OF conjI, OF t(6) m(7)]
  show ?thesis
    using t(1) m(1,8) a b c d e f g by (simp add: numberPreSets_def exampleBuiltins_def)
qed

text \<open>
  The claim as stated, for every response of the wrong type, fails on the empty body:
  it is a string, \<open>number\<close> is expected and \<open>Number\<close> of it is not \<open>NaN\<close>, yet the call
  fails, and with the server connection error.
\<close>

theorem performPostThen_empty_counterexample:
  "Some (typeOf (JString [])) \<noteq> typeExpected numberPreSets \<and>
   typeExpected numberPreSets = Some ''number'' \<and>
   Number exampleBuiltins [] = Finite 0 \<and>
   performPostThen exampleBuiltins ''m'' numberPreSets (JString [])
     = Inl (CoreError ''core.serverconnection'')"
  by (simp add: performPostThen_def numberPreSets_def exampleBuiltins_def Let_def)

lemma addToRetryQueue_fields:
  "retryCalls (snd (addToRetryQueue st m u d ps)) =
     retryCalls st @ [\<lparr>rcMethod = m, rcSiteUrl = u, rcData = d, rcPreSets = ps,
                        rcDeferred = nextId st\<rparr>] \<and>
   fst (addToRetryQueue st m u d ps) = nextId st \<and>
   posts (snd (addToRetryQueue st m u d ps)) = posts st \<and>
   timers (snd (addToRetryQueue st m u d ps)) = timers st \<and>
   retryTimeout (snd (addToRetryQueue st m u d ps)) = retryTimeout st \<and>
   now (snd (addToRetryQueue st m u d ps)) = now st"
  by (simp add: addToRetryQueue_def newPromise_def)

text \<open>
  Claim C9. When a POST settles, the retry queue changes only if the HTTP layer rejected
  with status 429. Any other rejection, the timeout included, rejects the promise of the
  POST with the server connection error and leaves the provider as it was; a 429 appends
  the call to the queue and the promise follows the queued call's.
\<close>

theorem performPost_retry_only_on_429:
  "(retryCalls (postSettles js st post outcome) \<noteq> retryCalls st \<longrightarrow>
      (\<exists>header. outcome = Inl (HttpErrorResponse 429 header))) \<and>
   (\<forall>err. outcome = Inl err \<and> (\<forall>header. err \<noteq> HttpErrorResponse 429 header) \<longrightarrow>
      performPostCatch st post err = (Rejected (CoreError ''core.serverconnection''), st) \<and>
      postSettles js st post outcome =
        st\<lparr>promises := (promises st)(postPromise post \<mapsto>
              Rejected (CoreError ''core.serverconnection''))\<rparr>) \<and>
   (\<forall>header. outcome = Inl (HttpErrorResponse 429 header) \<longrightarrow>
      retryCalls (postSettles js st post outcome) =
        retryCalls st @ [\<lparr>rcMethod = postMethod post, rcSiteUrl = postSiteUrl post,
                           rcData = postData post, rcPreSets = postPreSets post,
                           rcDeferred = nextId st\<rparr>] \<and>
      promises (postSettles js st post outcome) (postPromise post) = Some (Follows (nextId st)))"
proof (intro conjI allI impI)
  assume changed: "retryCalls (postSettles js st post outcome) \<noteq> retryCalls st"
  show "\<exists>header. outcome = Inl (HttpErrorResponse 429 header)"
  proof (cases outcome)
    case (Inr body)
    then show ?thesis
      using changed by (simp add: postSettles_def split: sum.splits)
  next
    case (Inl err)
    show ?thesis
    proof (cases err)
      case TimeoutError
      then show ?thesis using changed Inl by (simp add: postSettles_def performPostCatch_def)
    next
      case (HttpErrorResponse status header)
      then show ?thesis
        using changed Inl
        by (cases "status = 429") (simp_all add: postSettles_def performPostCatch_def)
    qed
  qed
next
  fix err
  assume a: "outcome = Inl err \<and> (\<forall>header. err \<noteq> HttpErrorResponse 429 header)"
  then have c: "performPostCatch st post err = (Rejected (CoreError ''core.serverconnection''), st)"
    by (cases err) (auto simp: performPostCatch_def)
  show "performPostCatch st post err = (Rejected (CoreError ''core.serverconnection''), st)"
    by (rule c)
  show "postSettles js st post outcome =
        st\<lparr>promises := (promises st)(postPromise post \<mapsto>
              Rejected (CoreError ''core.serverconnection''))\<rparr>"
    using a c by (simp add: postSettles_def)
next
  fix header
  assume o: "outcome = Inl (HttpErrorResponse 429 header)"
  obtain d st1 where q: "addToRetryQueue st (postMethod post) (postSiteUrl post) (postData post)
                    (postPreSets post) = (d, st1)"
    by (cases "addToRetryQueue st (postMethod post) (postSiteUrl post) (postData post)
                    (postPreSets post)") auto
  have f: "retryCalls st1 = retryCalls st @ [\<lparr>rcMethod = postMethod post,
             rcSiteUrl = postSiteUrl post, rcData = postData post,
             rcPreSets = postPreSets post, rcDeferred = nextId st\<rparr>]" "d = nextId st"
    using addToRetryQueue_fields [of st "postMethod post" "postSiteUrl post" "postData post"
        "postPreSets post"] q by simp_all
  show "retryCalls (postSettles js st post outcome) =
        retryCalls st @ [\<lparr>rcMethod = postMethod post, rcSiteUrl = postSiteUrl post,
                           rcData = postData post, rcPreSets = postPreSets post,
                           rcDeferred = nextId st\<rparr>]"
    using o q f by (simp add: postSettles_def performPostCatch_def setTimeout_def)
  show "promises (postSettles js st post outcome) (postPromise post) = Some (Follows (nextId st))"
    using o q f by (simp add: postSettles_def performPostCatch_def setTimeout_def)
qed

lemma firstPost_eq:
  "firstPost =
     \<lparr>postUrl = ''https://site/webservice/rest/server.php?moodlewsrestformat=json&wsfunction=A'',
      postData = [(''wsfunction'', JString ''A''), (''wstoken'', JString ''tok'')],
      postResponseType = None, postTimeout = 30000, postedAt = 0, postPromise = 0,
      postMethod = ''A'',
      postSiteUrl = ''https://site/webservice/rest/server.php?moodlewsrestformat=json'',
      postPreSets = withDefaults objectPreSets\<rparr>"
  by (simp add: firstPost_def call_def idleProvider_def objectPreSets_def withDefaults_def
      performPost_def newPromise_def getRequestTimeout_def Let_def)

theorem performPost_retry_only_on_429_witness:
  "retryCalls (postSettles exampleBuiltins (snd (call idleProvider ''A'' [] (Some objectPreSets)))
                 firstPost (Inl (HttpErrorResponse 429 (Some ''3''))))
     \<noteq> retryCalls (snd (call idleProvider ''A'' [] (Some objectPreSets))) \<and>
   map rcMethod
     (retryCalls (postSettles exampleBuiltins (snd (call idleProvider ''A'' [] (Some objectPreSets)))
                    firstPost (Inl (HttpErrorResponse 429 (Some ''3''))))) = [''A''] \<and>
   retryCalls (postSettles exampleBuiltins (snd (call idleProvider ''A'' [] (Some objectPreSets)))
                 firstPost (Inl TimeoutError)) = [] \<and>
   promises (postSettles exampleBuiltins (snd (call idleProvider ''A'' [] (Some objectPreSets)))
               firstPost (Inl TimeoutError)) 0
     = Some (Rejected (CoreError ''core.serverconnection'')) \<and>
   promises (postSettles exampleBuiltins (snd (call idleProvider ''A'' [] (Some objectPreSets)))
               firstPost (Inl (HttpErrorResponse 500 None))) 0
     = Some (Rejected (CoreError ''core.serverconnection''))"
proof -
  let ?st = "snd (call idleProvider ''A'' [] (Some objectPreSets))"
  have q: "retryCalls ?st = []" "postPromise firstPost = 0" "postMethod firstPost = ''A''"
    by (simp_all add: firstPost_eq call_def idleProvider_def performPost_def newPromise_def Let_def)
  note a = performPost_retry_only_on_429
             [of exampleBuiltins ?st firstPost "Inl (HttpErrorResponse 429 (Some ''3''))",
              THEN conjunct2, THEN conjunct2, rule_format, OF refl, THEN conjunct1]
  have nb: "Inl TimeoutError = (Inl TimeoutError :: http_error + js_value) \<and>
            (\<forall>header. TimeoutError \<noteq> HttpErrorResponse 429 header)"
    by simp
  have nc: "Inl (HttpErrorResponse 500 None) = (Inl (HttpErrorResponse 500 None) :: http_error + js_value) \<and>
            (\<forall>header. HttpErrorResponse 500 None \<noteq> HttpErrorResponse 429 header)"
    by simp
  note b = performPost_retry_only_on_429
             [of exampleBuiltins ?st firstPost "Inl TimeoutError",
              THEN conjunct2, THEN conjunct1, rule_format, OF nb, THEN conjunct2]
  note c = performPost_retry_only_on_429
             [of exampleBuiltins ?st firstPost "Inl (HttpErrorResponse 500 None)",
              THEN conjunct2, THEN conjunct1, rule_format, OF nc, THEN conjunct2]
  have a1: "retryCalls (postSettles exampleBuiltins ?st firstPost
                          (Inl (HttpErrorResponse 429 (Some ''3'')))) \<noteq> retryCalls ?st"
    unfolding a by simp
  have a2: "map rcMethod (retryCalls (postSettles exampleBuiltins ?st firstPost
                          (Inl (HttpErrorResponse 429 (Some ''3''))))) = [''A'']"
    unfolding a by (simp add: q)
  have b1: "retryCalls (postSettles exampleBuiltins ?st firstPost (Inl TimeoutError)) = []"
    unfolding b by (simp add: q)
  have b2: "promises (postSettles exampleBuiltins ?st firstPost (Inl TimeoutError)) 0
     = Some (Rejected (CoreError ''core.serverconnection''))"
    unfolding b by (simp add: q)
  have c2: "promises (postSettles exampleBuiltins ?st firstPost (Inl (HttpErrorResponse 500 None))) 0
     = Some (Rejected (CoreError ''core.serverconnection''))"
    unfolding c by (simp add: q)
  from a1 a2 b1 b2 c2 show ?thesis by (intro conjI)
qed

subsection \<open>The retry queue\<close>

lemma retryAfter_nonzero: "retryAfter header \<noteq> 0"
  by (simp add: retryAfter_def split: option.splits)





















subsection \<open>Identical calls\<close>

text \<open>
  On the AJAX path identical calls share one request: while the key of a call is in
  \<open>ongoingCalls\<close>, \<open>callAjax\<close> returns the promise stored there and sends nothing; the
  first caller holds a promise that follows the stored one, so both settle alike.
\<close>

lemma callAjax_ongoing:
  "ongoingCalls st (ajaxKey env method data preSets) = Some p \<Longrightarrow>
     callAjax st js env method data preSets = (Inr p, st)"
  by (simp add: callAjax_def getPromiseHttp_def ajaxKey_def Let_def)

lemma sendHTTPRequest_fields:
  "fst (sendHTTPRequest st url m d s) = nextId st \<and>
   ongoingCalls (snd (sendHTTPRequest st url m d s)) = ongoingCalls st \<and>
   (requests (snd (sendHTTPRequest st url m d s)) = requests st \<and> isIOS st \<and> take 7 url = ''file://'' \<or>
    (\<exists>r. requests (snd (sendHTTPRequest st url m d s)) = requests st @ [r] \<and>
         reqUrl r = url \<and> reqPromise r = nextId st))"
  by (simp add: sendHTTPRequest_def newPromise_def)

lemma performAjax_sends:
  assumes "performAjax st js env method data preSets = (Inr p, st1)"
  shows "\<exists>url m d s. sendHTTPRequest st url m d s = (p, st1)"
proof -
  obtain url where url: "ajaxSiteUrl preSets = Some url"
    using assms by (cases "ajaxSiteUrl preSets") (auto simp: performAjax_def)
  have on: "appOnline st"
    using assms url by (auto simp: performAjax_def split: if_splits)
  have "\<exists>u m d s. performAjax st js env method data preSets =
          (Inr (fst (sendHTTPRequest st u m d s)), snd (sendHTTPRequest st u m d s))"
  proof (cases "truthyOption (noLogin preSets) \<and> truthyOption (useGet preSets)")
    case True
    have "performAjax st js env method data preSets =
            (Inr (fst (sendHTTPRequest st
               (url @ ''/lib/ajax/'' @ ''service-nologin.php'' @ ''?info='' @ method @ ''&args='' @
                  encodeURIComponent env (stringify env
                    (JArray [JObject [(''index'', JNumber (Finite 0)),
                                      (''methodname'', JString method),
                                      (''args'', (case convertValuesToString js env data False of
                                                    None \<Rightarrow> JNull | Some a \<Rightarrow> a))]])))
               ''get'' None None)),
             snd (sendHTTPRequest st
               (url @ ''/lib/ajax/'' @ ''service-nologin.php'' @ ''?info='' @ method @ ''&args='' @
                  encodeURIComponent env (stringify env
                    (JArray [JObject [(''index'', JNumber (Finite 0)),
                                      (''methodname'', JString method),
                                      (''args'', (case convertValuesToString js env data False of
                                                    None \<Rightarrow> JNull | Some a \<Rightarrow> a))]])))
               ''get'' None None))"
      using True url on by (simp add: performAjax_def Let_def case_prod_beta)
    then show ?thesis by (intro exI)
  next
    case False
    have "performAjax st js env method data preSets =
            (Inr (fst (sendHTTPRequest st
               (url @ ''/lib/ajax/'' @
                  (if truthyOption (noLogin preSets) then ''service-nologin.php'' else ''service.php'')
                  @ ''?info='' @ method)
               ''post''
               (Some (JArray [JObject [(''index'', JNumber (Finite 0)),
                                      (''methodname'', JString method),
                                      (''args'', (case convertValuesToString js env data False of
                                                    None \<Rightarrow> JNull | Some a \<Rightarrow> a))]]))
               (Some ''json''))),
             snd (sendHTTPRequest st
               (url @ ''/lib/ajax/'' @
                  (if truthyOption (noLogin preSets) then ''service-nologin.php'' else ''service.php'')
                  @ ''?info='' @ method)
               ''post''
               (Some (JArray [JObject [(''index'', JNumber (Finite 0)),
                                      (''methodname'', JString method),
                                      (''args'', (case convertValuesToString js env data False of
                                                    None \<Rightarrow> JNull | Some a \<Rightarrow> a))]]))
               (Some ''json'')))"
      using False url on by (auto simp: performAjax_def Let_def case_prod_beta)
    then show ?thesis by (intro exI)
  qed
  then obtain u m d s where
    "performAjax st js env method data preSets =
       (Inr (fst (sendHTTPRequest st u m d s)), snd (sendHTTPRequest st u m d s))"
    by blast
  with assms have "fst (sendHTTPRequest st u m d s) = p" "snd (sendHTTPRequest st u m d s) = st1"
    by simp_all
  then have "sendHTTPRequest st u m d s = (p, st1)"
    by (simp add: prod_eq_iff)
  then show ?thesis by (intro exI)
qed

lemma performAjax_Inr:
  assumes "performAjax st js env method data preSets = (Inr p, st1)"
  shows "p = nextId st \<and> ongoingCalls st1 = ongoingCalls st \<and>
         (requests st1 = requests st \<and> isIOS st \<or> (\<exists>r. requests st1 = requests st @ [r] \<and> reqPromise r = p))"
proof -
  obtain url m d s where sent: "sendHTTPRequest st url m d s = (p, st1)"
    using performAjax_sends [OF assms] by blast
  show ?thesis
    using sendHTTPRequest_fields [of st url m d s] sent by auto
qed

lemma setPromiseHttp_fields:
  "fst (setPromiseHttp st env p m url params) = nextId st \<and>
   ongoingCalls (snd (setPromiseHttp st env p m url params)) =
     (ongoingCalls st)(getQueueItemId env m url params \<mapsto> p) \<and>
   promises (snd (setPromiseHttp st env p m url params)) (nextId st) = Some (Follows p) \<and>
   requests (snd (setPromiseHttp st env p m url params)) = requests st"
  by (simp add: setPromiseHttp_def newPromise_def Let_def)

lemma callAjax_shares_promise:
  assumes fresh: "ongoingCalls st (ajaxKey env method data preSets) = None"
    and first: "callAjax st js env method data preSets = (Inr q, st1)"
  shows "\<exists>p. promises st1 q = Some (Follows p) \<and>
             callAjax st1 js env method data preSets = (Inr p, st1) \<and>
             (requests st1 = requests st \<and> isIOS st \<or> (\<exists>r. requests st1 = requests st @ [r] \<and> reqPromise r = p))"
proof -
  obtain r stA where pa: "performAjax st js env method data preSets = (r, stA)"
    by (cases "performAjax st js env method data preSets") auto
  have c: "callAjax st js env method data preSets =
             (case r of Inl e \<Rightarrow> (Inl e, stA)
              | Inr promise \<Rightarrow>
                  (case setPromiseHttp stA env promise ''ajax''
                          (case ajaxSiteUrl preSets of None \<Rightarrow> ''undefined'' | Some u \<Rightarrow> u)
                          (Some (JObject [(''methodname'', JString method), (''args'', JObject data)])) of
                     (q, st2) \<Rightarrow> (Inr q, st2)))"
    using fresh pa by (simp add: callAjax_def getPromiseHttp_def ajaxKey_def Let_def split: sum.splits)
  obtain p where r: "r = Inr p"
    using first c by (cases r) auto
  note pf = performAjax_Inr [OF pa [unfolded r]]
  let ?sp = "setPromiseHttp stA env p ''ajax''
                          (case ajaxSiteUrl preSets of None \<Rightarrow> ''undefined'' | Some u \<Rightarrow> u)
                          (Some (JObject [(''methodname'', JString method), (''args'', JObject data)]))"
  have res: "q = fst ?sp" "st1 = snd ?sp"
    using first c r by (simp_all split: prod.splits)
  note sf = setPromiseHttp_fields [of stA env p "''ajax''"
      "case ajaxSiteUrl preSets of None \<Rightarrow> ''undefined'' | Some u \<Rightarrow> u"
      "Some (JObject [(''methodname'', JString method), (''args'', JObject data)])"]
  have og: "ongoingCalls st1 (ajaxKey env method data preSets) = Some p"
    using sf res by (simp add: ajaxKey_def)
  have fol: "promises st1 q = Some (Follows p)"
    using sf res by simp
  have rq: "requests st1 = requests stA"
    using sf res by simp
  show ?thesis
    using fol callAjax_ongoing [OF og, of js] pf rq by auto
qed

lemma requestSettles_promise:
  "\<exists>s. promises (requestSettles st preSets request outcome) (reqPromise request) = Some s \<and>
       s \<noteq> Pending \<and> (\<forall>x. s \<noteq> Follows x) \<and>
       (\<forall>x. x \<noteq> reqPromise request \<longrightarrow>
            promises (requestSettles st preSets request outcome) x = promises st x)"
  by (cases outcome)
     (auto simp: requestSettles_def Let_def split: sum.splits option.splits prod.splits)

lemma callAjax_same_result:
  assumes fresh: "ongoingCalls st (ajaxKey env method data preSets) = None"
    and first: "callAjax st js env method data preSets = (Inr q, st1)"
    and second: "callAjax st1 js env method data preSets = (Inr p, st1)"
    and req: "reqPromise request = p"
  shows "settlesAs 2 (promises (requestSettles st1 preSets request outcome)) q =
           settlesAs 1 (promises (requestSettles st1 preSets request outcome)) p \<and>
         settlesAs 1 (promises (requestSettles st1 preSets request outcome)) p \<noteq> Pending"
proof -
  obtain p' where p': "promises st1 q = Some (Follows p')"
      "callAjax st1 js env method data preSets = (Inr p', st1)"
    using callAjax_shares_promise [OF fresh first] by blast
  then have pp: "p' = p" using second by simp
  obtain r stA where pa: "performAjax st js env method data preSets = (r, stA)"
    by (cases "performAjax st js env method data preSets") auto
  have "q \<noteq> p"
  proof
    assume "q = p"
    have c: "callAjax st js env method data preSets =
             (case r of Inl e \<Rightarrow> (Inl e, stA)
              | Inr promise \<Rightarrow>
                  (case setPromiseHttp stA env promise ''ajax''
                          (case ajaxSiteUrl preSets of None \<Rightarrow> ''undefined'' | Some u \<Rightarrow> u)
                          (Some (JObject [(''methodname'', JString method), (''args'', JObject data)])) of
                     (q, st2) \<Rightarrow> (Inr q, st2)))"
      using fresh pa by (simp add: callAjax_def getPromiseHttp_def ajaxKey_def Let_def split: sum.splits)
    obtain p0 where r: "r = Inr p0" using first c by (cases r) auto
    have p0: "p0 = nextId st" using performAjax_Inr [OF pa [unfolded r]] by simp
    obtain u m d s where sent: "sendHTTPRequest st u m d s = (p0, stA)"
      using performAjax_sends [OF pa [unfolded r]] by blast
    have nA: "nextId stA = Suc (nextId st)"
      using sent by (auto simp: sendHTTPRequest_def newPromise_def split: if_splits)
    let ?sp = "setPromiseHttp stA env p0 ''ajax''
                          (case ajaxSiteUrl preSets of None \<Rightarrow> ''undefined'' | Some u \<Rightarrow> u)
                          (Some (JObject [(''methodname'', JString method), (''args'', JObject data)]))"
    have q: "q = fst ?sp" "st1 = snd ?sp" using first c r by (simp_all split: prod.splits)
    note sf = setPromiseHttp_fields [of stA env p0 "''ajax''"
      "case ajaxSiteUrl preSets of None \<Rightarrow> ''undefined'' | Some u \<Rightarrow> u"
      "Some (JObject [(''methodname'', JString method), (''args'', JObject data)])"]
    have "q = Suc (nextId st)" using sf q nA by simp
    moreover have "promises st1 q = Some (Follows p0)" using sf q by simp
    ultimately show False using p' pp p0 \<open>q = p\<close> by simp
  qed
  obtain s where s: "promises (requestSettles st1 preSets request outcome) p = Some s"
      "s \<noteq> Pending" "\<forall>x. s \<noteq> Follows x"
      "promises (requestSettles st1 preSets request outcome) q = promises st1 q"
    using requestSettles_promise [of st1 preSets request outcome] req \<open>q \<noteq> p\<close> by blast
  have one: "settlesAs 1 (promises (requestSettles st1 preSets request outcome)) p = s"
    using s by (cases s) (simp_all add: numeral_eq_Suc)
  have two: "settlesAs 2 (promises (requestSettles st1 preSets request outcome)) q =
               settlesAs 1 (promises (requestSettles st1 preSets request outcome)) p"
    using s(4) p'(1) pp by (simp add: numeral_2_eq_2)
  show ?thesis using one two s(2) by simp
qed

lemma callAjax_twice_one_request:
  "(case callAjax idleProvider exampleBuiltins exampleAjaxEnv ''core_get_x'' [(''id'', JString ''1'')]
           exampleAjaxPreSets of
      (first, st1) \<Rightarrow>
        (case callAjax st1 exampleBuiltins exampleAjaxEnv ''core_get_x'' [(''id'', JString ''1'')]
                exampleAjaxPreSets of
           (second, st2) \<Rightarrow>
             first = Inr 1 \<and> second = Inr 0 \<and> promises st2 1 = Some (Follows 0) \<and>
             map reqPromise (requests st2) = [0] \<and>
             map reqUrl (requests st2) = [''https://site/lib/ajax/service.php?info=core_get_x'']))"
  by (simp add: callAjax_def getPromiseHttp_def getQueueItemId_def performAjax_def
      sendHTTPRequest_def setPromiseHttp_def newPromise_def getRequestTimeout_def
      idleProvider_def exampleAjaxEnv_def exampleAjaxPreSets_def truthyOption_def Let_def)

text \<open>
  \<open>call\<close> has no such lookup: every invocation that finds the retry queue empty issues
  a POST of its own.
\<close>

lemma call_never_shares:
  assumes "appOnline st" "retryCalls st = []"
    and "call st method data (Some preSets) = (first, st1)"
    and "call st1 method data (Some preSets) = (second, st2)"
  shows "first = Inr (nextId st) \<and> second = Inr (Suc (nextId st)) \<and>
         length (posts st2) = length (posts st) + 2"
  using assms
  by (auto simp: call_def Let_def performPost_def newPromise_def)

text \<open>
  Claim C1 at its failing input. Two identical calls through \<open>call\<close>, the second issued
  while the promise of the first is pending, issue two POSTs with the same URL and the
  same data, and the callers hold different promises.
\<close>

theorem call_twice_posts_twice:
  "(case call idleProvider ''core_get_x'' [(''id'', JString ''1'')] (Some objectPreSets) of
      (first, st1) \<Rightarrow>
        (case call st1 ''core_get_x'' [(''id'', JString ''1'')] (Some objectPreSets) of
           (second, st2) \<Rightarrow>
             first = Inr 0 \<and> second = Inr 1 \<and>
             promises st1 0 = Some Pending \<and>
             map postPromise (posts st2) = [0, 1] \<and>
             map postUrl (posts st2) =
               [''https://site/webservice/rest/server.php?moodlewsrestformat=json&wsfunction=core_get_x'',
                ''https://site/webservice/rest/server.php?moodlewsrestformat=json&wsfunction=core_get_x''] \<and>
             map postData (posts st2) =
               [[(''id'', JString ''1''), (''wsfunction'', JString ''core_get_x''),
                 (''wstoken'', JString ''tok'')],
                [(''id'', JString ''1''), (''wsfunction'', JString ''core_get_x''),
                 (''wstoken'', JString ''tok'')]]))"
  by (simp add: call_def idleProvider_def objectPreSets_def withDefaults_def
      performPost_def newPromise_def getRequestTimeout_def Let_def)

end
